theory Spec2Isabelle
  imports Main "HOL-Library.Word" "HOL-Library.AList"
begin

section \<open>Results of the converter's operations\<close>

text \<open>
  An operation of \<^verbatim>\<open>convert.go\<close> either completes, returns a Go \<^verbatim>\<open>error\<close> to
  its caller, or panics (an explicit \<^verbatim>\<open>panic(...)\<close> or a run-time panic such as a nil
  dereference or an index out of range).  Nothing in the package recovers from a panic, so
  a panic ends the process.  Errors are represented by their message.
\<close>

datatype 'a res = Ok 'a | Err string | Panic string

text \<open>Sequencing: an error or a panic of the first step ends the computation.\<close>

definition bind_res :: "'a res \<Rightarrow> ('a \<Rightarrow> 'b res) \<Rightarrow> 'b res" where
  "bind_res m f = (case m of Ok x \<Rightarrow> f x | Err e \<Rightarrow> Err e | Panic p \<Rightarrow> Panic p)"

lemma bind_res_simps [simp]:
  "bind_res (Ok x) f = f x"
  "bind_res (Err e) f = Err e"
  "bind_res (Panic p) f = Panic p"
  by (simp_all add: bind_res_def)

lemma bind_res_cong [fundef_cong]:
  "m = m' \<Longrightarrow> (\<And>x. m' = Ok x \<Longrightarrow> f x = f' x) \<Longrightarrow> bind_res m f = bind_res m' f'"
  by (cases m') (simp_all add: bind_res_def)

lemma bind_res_Ok_iff: "bind_res m f = Ok y \<longleftrightarrow> (\<exists>x. m = Ok x \<and> f x = Ok y)"
  by (cases m) simp_all

section \<open>Positions and extents\<close>

text \<open>
  \<^verbatim>\<open>token.Pos\<close> is a Go \<^verbatim>\<open>int\<close>; \<^verbatim>\<open>token.NoPos\<close> is 0.  The converter only adds
  small constants to positions and compares them, so they are modelled as integers.
\<close>

type_synonym Pos = int

text \<open>\<^verbatim>\<open>token.Position\<close>, without the file name, which the converter never reads.\<close>

record Position =
  Offset :: int
  Line :: int
  Column :: int

text \<open>
  The file set of \<^verbatim>\<open>findFuncs\<close> holds the single file that was parsed.  \<^verbatim>\<open>base\<close>
  and \<^verbatim>\<open>fsize\<close> are the base and the size of its \<^verbatim>\<open>token.File\<close>; \<^verbatim>\<open>lineOf\<close> and \<^verbatim>\<open>columnOf\<close>
  give the line and column that the file's line table (and its line directives) assign
  to a byte offset.
\<close>

record FileSet =
  base :: int
  fsize :: int
  lineOf :: "int \<Rightarrow> int"
  columnOf :: "int \<Rightarrow> int"

text \<open>
  The \<^verbatim>\<open>Position\<close> method of \<^verbatim>\<open>token.FileSet\<close>: the zero Position for \<^verbatim>\<open>NoPos\<close>
  and for a position outside the file, otherwise offset \<^verbatim>\<open>p - base\<close> with its line and
  column.
\<close>

definition PositionOf :: "FileSet \<Rightarrow> Pos \<Rightarrow> Position" where
  "PositionOf fset p =
     (if p \<noteq> 0 \<and> base fset \<le> p \<and> p \<le> base fset + fsize fset
      then \<lparr>Offset = p - base fset,
            Line = lineOf fset (p - base fset),
            Column = columnOf fset (p - base fset)\<rparr>
      else \<lparr>Offset = 0, Line = 0, Column = 0\<rparr>)"

text \<open>\<^verbatim>\<open>type extent struct\<close> (lines 183-190).\<close>

record extent =
  startOffset :: int
  startLine :: int
  startCol :: int
  endOffset :: int
  endLine :: int
  endCol :: int

text \<open>\<^verbatim>\<open>type StmtExtent extent\<close> (line 200).\<close>

type_synonym StmtExtent = extent

text \<open>\<^verbatim>\<open>type FuncExtent struct\<close> (lines 193-197): an embedded extent, a name, statements.\<close>

record FuncExtent = extent +
  name :: string
  stmts :: "StmtExtent list"

text \<open>
  The extent literal that \<^verbatim>\<open>collectExpr\<close>, \<^verbatim>\<open>collectToken\<close>, \<^verbatim>\<open>Visit\<close> and the
  inlined copies in \<^verbatim>\<open>VisitStmt\<close> all build from a start and an end Position.
\<close>

definition mkExtent :: "Position \<Rightarrow> Position \<Rightarrow> extent" where
  "mkExtent start end' =
     \<lparr>startOffset = Offset start, startLine = Line start, startCol = Column start,
      endOffset = Offset end', endLine = Line end', endCol = Column end'\<rparr>"

section \<open>Coverage profiles and the output records\<close>

text \<open>
  \<^verbatim>\<open>cover.ProfileBlock\<close> and \<^verbatim>\<open>cover.Profile\<close> of \<^verbatim>\<open>golang.org/x/tools/cover\<close>.
  The fields are Go \<^verbatim>\<open>int\<close>s, kept as their integer values.
\<close>

record ProfileBlock =
  StartLine :: int
  StartCol :: int
  EndLine :: int
  EndCol :: int
  NumStmt :: int
  Count :: int

record Profile =
  FileName :: string
  Mode :: string
  Blocks :: "ProfileBlock list"

text \<open>
  Modelled from the spec: the records \<^verbatim>\<open>gocov.Statement\<close>, \<^verbatim>\<open>gocov.Function\<close> and
  \<^verbatim>\<open>gocov.Package\<close> are declared in the repository's root package, which is not among the
  sources.  The fields are the ones \<^verbatim>\<open>convert.go\<close> assigns and the spec lists for the
  output document.  \<^verbatim>\<open>Reached\<close> is converted to from \<^verbatim>\<open>int64\<close> at line 164, so it is a
  64-bit word whose addition wraps.
\<close>

record Statement =
  S_Start :: int
  S_End :: int
  Reached :: "64 word"

record Function =
  F_Name :: string
  F_File :: string
  F_Start :: int
  F_End :: int
  Statements :: "Statement list"

record Package =
  P_Name :: string
  Functions :: "Function list"

text \<open>
  \<^verbatim>\<open>type statement struct\<close> (lines 112-115): a \<^verbatim>\<open>*gocov.Statement\<close> together with
  its \<^verbatim>\<open>*StmtExtent\<close>.
\<close>

record statement =
  Statement :: Statement
  StmtExtent :: StmtExtent

section \<open>Syntax trees\<close>

text \<open>
  The part of \<^verbatim>\<open>go/ast\<close> that the converter reads.  Constructor arguments are the
  fields of the Go struct in their declared order.  A \<^verbatim>\<open>*ast.Ident\<close> field (a label,
  a declared name) is given by its \<^verbatim>\<open>NamePos\<close> and \<^verbatim>\<open>Name\<close>; a \<^verbatim>\<open>token.Token\<close> by
  its text; a field that may be nil by an option.

  Expressions: the converter looks into identifiers, pointer types and index
  expressions (for receiver names) and into function literals.  Every other kind of
  expression is \<open>OtherExpr\<close>, which carries what the converter uses of it: the values
  of its \<^verbatim>\<open>Pos()\<close> and \<^verbatim>\<open>End()\<close> and its sub-expressions in the order \<^verbatim>\<open>ast.Walk\<close>
  visits them.  The \<^verbatim>\<open>*ast.FuncType\<close> of a function literal or declaration is given
  the same way, by its \<^verbatim>\<open>Pos()\<close> (the \<^verbatim>\<open>func\<close> keyword), its \<^verbatim>\<open>End()\<close> and the
  expressions among its parameters and results; the receiver list of a declaration by
  the types of its fields; a \<^verbatim>\<open>*ast.GenDecl\<close> by its \<^verbatim>\<open>Pos()\<close>, \<^verbatim>\<open>End()\<close> and the
  expressions in its specs.

  The bodies of if, switch, select and for statements and of function literals are
  \<^verbatim>\<open>*ast.BlockStmt\<close> fields; the parser never leaves them nil, and they are not
  optional here.  The body of a function declaration may be nil.
\<close>

type_synonym Token = string

datatype Expr =
    Ident Pos string
  | StarExpr Pos Expr
  | IndexExpr Expr Pos Expr Pos
  | FuncLit Pos Pos "Expr list" Block
  | OtherExpr Pos Pos "Expr list"
and Stmt =
    BadStmt Pos Pos
  | DeclStmt Decl
  | EmptyStmt Pos bool
  | LabeledStmt Pos string Pos Stmt
  | ExprStmt Expr
  | SendStmt Expr Pos Expr
  | IncDecStmt Expr Pos Token
  | AssignStmt "Expr list" Pos Token "Expr list"
  | GoStmt Pos Expr
  | DeferStmt Pos Expr
  | ReturnStmt Pos "Expr list"
  | BranchStmt Pos Token "(Pos \<times> string) option"
  | BlockStmt Block
  | IfStmt Pos "Stmt option" "Expr option" Block "Stmt option"
  | CaseClause Pos "Expr list" Pos "Stmt list"
  | SwitchStmt Pos "Stmt option" "Expr option" Block
  | TypeSwitchStmt Pos "Stmt option" "Stmt option" Block
  | CommClause Pos "Stmt option" Pos "Stmt list"
  | SelectStmt Pos Block
  | ForStmt Pos "Stmt option" "Expr option" "Stmt option" Block
  | RangeStmt Pos "Expr option" "Expr option" Pos Token Expr Block
and Block =
    Block Pos "Stmt list" Pos
and Decl =
    BadDecl Pos Pos
  | GenDecl Pos Pos "Expr list"
  | FuncDecl "Expr list option" Pos string Pos Pos "Expr list" "Block option"

text \<open>A node as \<^verbatim>\<open>ast.Node\<close>: what \<^verbatim>\<open>Visit\<close> and \<^verbatim>\<open>collectExpr\<close> are handed.\<close>

datatype Node = ExprNode Expr | StmtNode Stmt | DeclNode Decl

subsection \<open>The \<^verbatim>\<open>Pos\<close> and \<^verbatim>\<open>End\<close> methods of \<^verbatim>\<open>go/ast\<close>\<close>

fun Expr_Pos :: "Expr \<Rightarrow> Pos" where
  "Expr_Pos (Ident p n) = p"
| "Expr_Pos (StarExpr p x) = p"
| "Expr_Pos (IndexExpr x l i r) = Expr_Pos x"
| "Expr_Pos (FuncLit tp te tcs b) = tp"
| "Expr_Pos (OtherExpr p e cs) = p"

fun Decl_Pos :: "Decl \<Rightarrow> Pos" where
  "Decl_Pos (BadDecl f t) = f"
| "Decl_Pos (GenDecl p e cs) = p"
| "Decl_Pos (FuncDecl recv np n tp te tcs b) = tp"

text \<open>
  \<^verbatim>\<open>End\<close> of an assignment indexes the last right-hand side and panics when there is
  none, so the \<^verbatim>\<open>End\<close> methods return a result.  A block ends after its closing brace;
  when that position is invalid, after its last statement.
\<close>

fun Expr_End :: "Expr \<Rightarrow> Pos res"
  and Exprs_lastEnd :: "Expr list \<Rightarrow> Pos res"
  and Stmt_End :: "Stmt \<Rightarrow> Pos res"
  and Stmts_lastEnd :: "Pos \<Rightarrow> Stmt list \<Rightarrow> Pos res"
  and Block_End :: "Block \<Rightarrow> Pos res"
  and Decl_End :: "Decl \<Rightarrow> Pos res"
where
  "Expr_End (Ident p n) = Ok (p + int (length n))"
| "Expr_End (StarExpr p x) = Expr_End x"
| "Expr_End (IndexExpr x l i r) = Ok (r + 1)"
| "Expr_End (FuncLit tp te tcs b) = Block_End b"
| "Expr_End (OtherExpr p e cs) = Ok e"
| "Exprs_lastEnd [] = Panic ''index out of range''"
| "Exprs_lastEnd [x] = Expr_End x"
| "Exprs_lastEnd (x # y # ys) = Exprs_lastEnd (y # ys)"
| "Stmt_End (BadStmt f t) = Ok t"
| "Stmt_End (DeclStmt d) = Decl_End d"
| "Stmt_End (EmptyStmt p implicit) = Ok (if implicit then p else p + 1)"
| "Stmt_End (LabeledStmt lp ln c s) = Stmt_End s"
| "Stmt_End (ExprStmt x) = Expr_End x"
| "Stmt_End (SendStmt ch a v) = Expr_End v"
| "Stmt_End (IncDecStmt x p t) = Ok (p + 2)"
| "Stmt_End (AssignStmt lhs p t rhs) = Exprs_lastEnd rhs"
| "Stmt_End (GoStmt p call) = Expr_End call"
| "Stmt_End (DeferStmt p call) = Expr_End call"
| "Stmt_End (ReturnStmt p rs) = (if rs = [] then Ok (p + 6) else Exprs_lastEnd rs)"
| "Stmt_End (BranchStmt p t lbl) =
     (case lbl of Some (lp, ln) \<Rightarrow> Ok (lp + int (length ln)) | None \<Rightarrow> Ok (p + int (length t)))"
| "Stmt_End (BlockStmt b) = Block_End b"
| "Stmt_End (IfStmt p init cond body els) =
     (case els of Some e \<Rightarrow> Stmt_End e | None \<Rightarrow> Block_End body)"
| "Stmt_End (CaseClause p l c body) = Stmts_lastEnd (c + 1) body"
| "Stmt_End (SwitchStmt p init tag body) = Block_End body"
| "Stmt_End (TypeSwitchStmt p init assign body) = Block_End body"
| "Stmt_End (CommClause p comm c body) = Stmts_lastEnd (c + 1) body"
| "Stmt_End (SelectStmt p body) = Block_End body"
| "Stmt_End (ForStmt p init cond post body) = Block_End body"
| "Stmt_End (RangeStmt p k v tp t x body) = Block_End body"
| "Stmts_lastEnd d [] = Ok d"
| "Stmts_lastEnd d [s] = Stmt_End s"
| "Stmts_lastEnd d (s # s' # ss) = Stmts_lastEnd d (s' # ss)"
| "Block_End (Block l xs r) = (if r \<noteq> 0 then Ok (r + 1) else Stmts_lastEnd (l + 1) xs)"
| "Decl_End (BadDecl f t) = Ok t"
| "Decl_End (GenDecl p e cs) = Ok e"
| "Decl_End (FuncDecl recv np n tp te tcs b) =
     (case b of Some body \<Rightarrow> Block_End body | None \<Rightarrow> Ok te)"

fun Stmt_Pos :: "Stmt \<Rightarrow> Pos res" where
  "Stmt_Pos (BadStmt f t) = Ok f"
| "Stmt_Pos (DeclStmt d) = Ok (Decl_Pos d)"
| "Stmt_Pos (EmptyStmt p implicit) = Ok p"
| "Stmt_Pos (LabeledStmt lp ln c s) = Ok lp"
| "Stmt_Pos (ExprStmt x) = Ok (Expr_Pos x)"
| "Stmt_Pos (SendStmt ch a v) = Ok (Expr_Pos ch)"
| "Stmt_Pos (IncDecStmt x p t) = Ok (Expr_Pos x)"
| "Stmt_Pos (AssignStmt lhs p t rhs) =
     (case lhs of [] \<Rightarrow> Panic ''index out of range'' | x # _ \<Rightarrow> Ok (Expr_Pos x))"
| "Stmt_Pos (GoStmt p call) = Ok p"
| "Stmt_Pos (DeferStmt p call) = Ok p"
| "Stmt_Pos (ReturnStmt p rs) = Ok p"
| "Stmt_Pos (BranchStmt p t lbl) = Ok p"
| "Stmt_Pos (BlockStmt (Block l xs r)) = Ok l"
| "Stmt_Pos (IfStmt p init cond body els) = Ok p"
| "Stmt_Pos (CaseClause p l c body) = Ok p"
| "Stmt_Pos (SwitchStmt p init tag body) = Ok p"
| "Stmt_Pos (TypeSwitchStmt p init assign body) = Ok p"
| "Stmt_Pos (CommClause p comm c body) = Ok p"
| "Stmt_Pos (SelectStmt p body) = Ok p"
| "Stmt_Pos (ForStmt p init cond post body) = Ok p"
| "Stmt_Pos (RangeStmt p k v tp t x body) = Ok p"

fun Node_Pos :: "Node \<Rightarrow> Pos res" where
  "Node_Pos (ExprNode x) = Ok (Expr_Pos x)"
| "Node_Pos (StmtNode s) = Stmt_Pos s"
| "Node_Pos (DeclNode d) = Ok (Decl_Pos d)"

fun Node_End :: "Node \<Rightarrow> Pos res" where
  "Node_End (ExprNode x) = Expr_End x"
| "Node_End (StmtNode s) = Stmt_End s"
| "Node_End (DeclNode d) = Decl_End d"

section \<open>Statement extent extractor\<close>

text \<open>
  \<^verbatim>\<open>StmtVisitor\<close> (lines 267-296).  Its state is the list \<^verbatim>\<open>v.function.stmts\<close>, passed
  in and returned.  \<^verbatim>\<open>collectExpr\<close> appends the extent of a node from its \<^verbatim>\<open>Pos()\<close> to
  its \<^verbatim>\<open>End()\<close>; \<^verbatim>\<open>collectToken\<close> appends the extent that starts at a position and is
  as long as the given text.
\<close>

definition collectExpr :: "FileSet \<Rightarrow> StmtExtent list \<Rightarrow> Node \<Rightarrow> StmtExtent list res" where
  "collectExpr fset ss node =
     bind_res (Node_Pos node) (\<lambda>p.
     bind_res (Node_End node) (\<lambda>e.
       Ok (ss @ [mkExtent (PositionOf fset p) (PositionOf fset e)])))"

definition collectToken :: "FileSet \<Rightarrow> StmtExtent list \<Rightarrow> Pos \<Rightarrow> string \<Rightarrow> StmtExtent list" where
  "collectToken fset ss pos tok =
     ss @ [mkExtent (PositionOf fset pos) (PositionOf fset (pos + int (length tok)))]"

text \<open>
  The rewriting of an else branch (lines 340-353).  An else-if is wrapped in a new block
  that starts \<^verbatim>\<open>len("else ")\<close> = 5 positions before the nested \<^verbatim>\<open>if\<close> and whose closing
  brace is the nested statement's \<^verbatim>\<open>End()\<close>; an else block has its opening brace moved
  back by 5; any other statement panics.  The result is the block that replaces
  \<^verbatim>\<open>s.Else\<close> and is visited next.
\<close>

fun rewriteElse :: "Stmt \<Rightarrow> Block res" where
  "rewriteElse (IfStmt p init cond body els) =
     bind_res (Stmt_End (IfStmt p init cond body els)) (\<lambda>r.
       Ok (Block (p - 5) [IfStmt p init cond body els] r))"
| "rewriteElse (BlockStmt (Block l xs r)) = Ok (Block (l - 5) xs r)"
| "rewriteElse _ = Panic ''unexpected node type in if''"

lemma rewriteElse_size:
  "rewriteElse e = Ok b \<Longrightarrow> size b < Suc (Suc (i + c + size e + size (body :: Block)))"
proof -
  assume "rewriteElse e = Ok b"
  then have "size b \<le> size e + 2"
    by (cases e rule: rewriteElse.cases) (auto simp: bind_res_Ok_iff)
  moreover have "0 < size body"
    by (cases body) simp
  ultimately show ?thesis
    by linarith
qed

text \<open>
  \<^verbatim>\<open>VisitStmt\<close> (lines 298-435).  It returns the statement as the traversal leaves it
  (the else branches rewritten in place) together with the extended list of extents.
  The four extents that the source builds inline (type switch, select, for condition,
  range) are the ones \<^verbatim>\<open>collectToken\<close> and \<^verbatim>\<open>collectExpr\<close> build.  A \<^verbatim>\<open>*ast.BlockStmt\<close>
  body is dispatched to the block case, \<open>VisitBlock\<close>; \<open>VisitStmts\<close> is the loop over a
  statement list.
\<close>

function (sequential) VisitStmt :: "FileSet \<Rightarrow> StmtExtent list \<Rightarrow> Stmt \<Rightarrow> (Stmt \<times> StmtExtent list) res"
  and VisitBlock :: "FileSet \<Rightarrow> StmtExtent list \<Rightarrow> Block \<Rightarrow> (Block \<times> StmtExtent list) res"
  and VisitStmts :: "FileSet \<Rightarrow> StmtExtent list \<Rightarrow> Stmt list \<Rightarrow> (Stmt list \<times> StmtExtent list) res"
where
  "VisitStmt fset ss (BadStmt f t) = Ok (BadStmt f t, ss)"
| "VisitStmt fset ss (DeclStmt d) =
     bind_res (collectExpr fset ss (DeclNode d)) (\<lambda>ss1. Ok (DeclStmt d, ss1))"
| "VisitStmt fset ss (EmptyStmt p implicit) = Ok (EmptyStmt p implicit, ss)"
| "VisitStmt fset ss (LabeledStmt lp ln c s) =
     bind_res (VisitStmt fset ss s) (\<lambda>(s1, ss1). Ok (LabeledStmt lp ln c s1, ss1))"
| "VisitStmt fset ss (ExprStmt x) =
     bind_res (collectExpr fset ss (ExprNode x)) (\<lambda>ss1. Ok (ExprStmt x, ss1))"
| "VisitStmt fset ss (SendStmt ch a v) =
     bind_res (collectExpr fset ss (ExprNode ch)) (\<lambda>ss1. Ok (SendStmt ch a v, ss1))"
| "VisitStmt fset ss (IncDecStmt x p t) =
     bind_res (collectExpr fset ss (ExprNode x)) (\<lambda>ss1. Ok (IncDecStmt x p t, ss1))"
| "VisitStmt fset ss (AssignStmt lhs p t rhs) =
     Ok (AssignStmt lhs p t rhs, collectToken fset ss p ''='')"
| "VisitStmt fset ss (GoStmt p call) = Ok (GoStmt p call, collectToken fset ss p ''go'')"
| "VisitStmt fset ss (DeferStmt p call) = Ok (DeferStmt p call, collectToken fset ss p ''defer'')"
| "VisitStmt fset ss (ReturnStmt p rs) = Ok (ReturnStmt p rs, collectToken fset ss p ''return'')"
| "VisitStmt fset ss (BranchStmt p t lbl) =
     bind_res (case lbl of
                 Some (lp, ln) \<Rightarrow> collectExpr fset ss (ExprNode (Ident lp ln))
               | None \<Rightarrow> Ok ss) (\<lambda>ss1.
       Ok (BranchStmt p t lbl, collectToken fset ss1 p ''g''))"
| "VisitStmt fset ss (BlockStmt b) =
     bind_res (VisitBlock fset ss b) (\<lambda>(b1, ss1). Ok (BlockStmt b1, ss1))"
| "VisitStmt fset ss (IfStmt p init cond body els) =
     bind_res (case init of
                 Some i \<Rightarrow> bind_res (VisitStmt fset ss i) (\<lambda>(i1, ss1). Ok (Some i1, ss1))
               | None \<Rightarrow>
                   (case cond of
                      Some c \<Rightarrow> bind_res (collectExpr fset ss (ExprNode c)) (\<lambda>ss1. Ok (None, ss1))
                    | None \<Rightarrow> Ok (None, ss))) (\<lambda>(init1, ss1).
     bind_res (VisitBlock fset ss1 body) (\<lambda>(body1, ss2).
       (case els of
          None \<Rightarrow> Ok (IfStmt p init1 cond body1 None, ss2)
        | Some e \<Rightarrow>
            bind_res (rewriteElse e) (\<lambda>block.
            bind_res (VisitBlock fset ss2 block) (\<lambda>(block1, ss3).
              Ok (IfStmt p init1 cond body1 (Some (BlockStmt block1)), ss3))))))"
| "VisitStmt fset ss (CaseClause p l c body) =
     bind_res (VisitStmts fset ss body) (\<lambda>(body1, ss1). Ok (CaseClause p l c body1, ss1))"
| "VisitStmt fset ss (SwitchStmt p init tag body) =
     bind_res (case init of
                 Some i \<Rightarrow> bind_res (VisitStmt fset ss i) (\<lambda>(i1, ss1). Ok (Some i1, ss1))
               | None \<Rightarrow> Ok (None, collectToken fset ss p ''switch'')) (\<lambda>(init1, ss1).
     bind_res (VisitBlock fset ss1 body) (\<lambda>(body1, ss2).
       Ok (SwitchStmt p init1 tag body1, ss2)))"
| "VisitStmt fset ss (TypeSwitchStmt p init assign body) =
     bind_res (case init of
                 Some i \<Rightarrow> bind_res (VisitStmt fset ss i) (\<lambda>(i1, ss1). Ok (Some i1, assign, ss1))
               | None \<Rightarrow>
                   (case assign of
                      Some a \<Rightarrow> bind_res (VisitStmt fset ss a) (\<lambda>(a1, ss1). Ok (None, Some a1, ss1))
                    | None \<Rightarrow> Ok (None, None, collectToken fset ss p ''switch'')))
       (\<lambda>(init1, assign1, ss1).
     bind_res (VisitBlock fset ss1 body) (\<lambda>(body1, ss2).
       Ok (TypeSwitchStmt p init1 assign1 body1, ss2)))"
| "VisitStmt fset ss (CommClause p comm c body) =
     bind_res (VisitStmts fset ss body) (\<lambda>(body1, ss1). Ok (CommClause p comm c body1, ss1))"
| "VisitStmt fset ss (SelectStmt p body) =
     bind_res (VisitBlock fset (collectToken fset ss p ''select'') body) (\<lambda>(body1, ss1).
       Ok (SelectStmt p body1, ss1))"
| "VisitStmt fset ss (ForStmt p init cond post body) =
     bind_res (case init of
                 Some i \<Rightarrow> bind_res (VisitStmt fset ss i) (\<lambda>(i1, ss1). Ok (Some i1, post, ss1))
               | None \<Rightarrow>
                   (case cond of
                      Some c \<Rightarrow>
                        bind_res (collectExpr fset ss (ExprNode c)) (\<lambda>ss1. Ok (None, post, ss1))
                    | None \<Rightarrow>
                        (case post of
                           Some q \<Rightarrow>
                             bind_res (VisitStmt fset ss q) (\<lambda>(q1, ss1). Ok (None, Some q1, ss1))
                         | None \<Rightarrow> Ok (None, None, collectToken fset ss p ''for''))))
       (\<lambda>(init1, post1, ss1).
     bind_res (VisitBlock fset ss1 body) (\<lambda>(body1, ss2).
       Ok (ForStmt p init1 cond post1 body1, ss2)))"
| "VisitStmt fset ss (RangeStmt p k v tp t x body) =
     bind_res (collectExpr fset ss (ExprNode x)) (\<lambda>ss1.
     bind_res (VisitBlock fset ss1 body) (\<lambda>(body1, ss2).
       Ok (RangeStmt p k v tp t x body1, ss2)))"
| "VisitBlock fset ss (Block l xs r) =
     bind_res (VisitStmts fset ss xs) (\<lambda>(xs1, ss1). Ok (Block l xs1 r, ss1))"
| "VisitStmts fset ss [] = Ok ([], ss)"
| "VisitStmts fset ss (s # rest) =
     bind_res (VisitStmt fset ss s) (\<lambda>(s1, ss1).
     bind_res (VisitStmts fset ss1 rest) (\<lambda>(rest1, ss2). Ok (s1 # rest1, ss2)))"
  by pat_completeness auto
termination
  by (relation "measure (\<lambda>x. case x of
          Inl (fset, ss, s) \<Rightarrow> size s
        | Inr (Inl (fset, ss, b)) \<Rightarrow> size b
        | Inr (Inr (fset, ss, xs)) \<Rightarrow> size_list size xs)")
     (auto intro: rewriteElse_size)

section \<open>Function discoverer\<close>

text \<open>\<^verbatim>\<open>exprName\<close> (lines 219-230) and \<^verbatim>\<open>functionName\<close> (lines 208-217), which reads
  the receiver list and the name of a \<^verbatim>\<open>*ast.FuncDecl\<close>; \<^verbatim>\<open>f.Recv.List[0]\<close> panics on an
  empty receiver list.\<close>

fun exprName :: "Expr \<Rightarrow> string" where
  "exprName (StarExpr p x) = exprName x"
| "exprName (IndexExpr x l i r) = exprName x @ ''['' @ exprName i @ '']''"
| "exprName (Ident p n) = n"
| "exprName (FuncLit tp te tcs b) = ''''"
| "exprName (OtherExpr p e cs) = ''''"

definition functionName :: "Expr list option \<Rightarrow> string \<Rightarrow> string res" where
  "functionName recv n =
     (case recv of
        None \<Rightarrow> Ok n
      | Some [] \<Rightarrow> Panic ''index out of range''
      | Some (t # _) \<Rightarrow> Ok (exprName t @ ''.'' @ n))"

text \<open>The decimal rendering of \<^verbatim>\<open>%d\<close>.\<close>

fun showNat :: "nat \<Rightarrow> string" where
  "showNat n =
     (if n < 10 then [''0123456789'' ! n]
      else showNat (n div 10) @ [''0123456789'' ! (n mod 10)])"

declare showNat.simps [simp del]

definition showInt :: "int \<Rightarrow> string" where
  "showInt i = (if i < 0 then CHR ''-'' # showNat (nat (- i)) else showNat (nat i))"

text \<open>
  \<^verbatim>\<open>FuncVisitor.Visit\<close> (lines 233-265).  The state is \<^verbatim>\<open>v.funcs\<close>.  For a function
  literal or a function declaration with a body it appends the function's extent and
  name and runs the statement visitor on the body, which fills the extent's statement
  list and rewrites the body; the node is returned with that body.  Any other node
  leaves the state unchanged.
\<close>

fun setBody :: "Node \<Rightarrow> Block \<Rightarrow> Node" where
  "setBody (ExprNode (FuncLit tp te tcs b)) b1 = ExprNode (FuncLit tp te tcs b1)"
| "setBody (DeclNode (FuncDecl recv np n tp te tcs b)) b1 =
     DeclNode (FuncDecl recv np n tp te tcs (Some b1))"
| "setBody node b1 = node"

definition Visit :: "FileSet \<Rightarrow> FuncExtent list \<Rightarrow> Node \<Rightarrow> (FuncExtent list \<times> Node) res" where
  "Visit fset funcs node =
     bind_res (case node of
                 ExprNode (FuncLit tp te tcs b) \<Rightarrow> Ok (Some b, '''')
               | DeclNode (FuncDecl recv np n tp te tcs b) \<Rightarrow>
                   bind_res (functionName recv n) (\<lambda>nm. Ok (b, nm))
               | _ \<Rightarrow> Ok (None, '''')) (\<lambda>(body, name0).
       (case body of
          None \<Rightarrow> Ok (funcs, node)
        | Some b \<Rightarrow>
            bind_res (Node_Pos node) (\<lambda>p.
            bind_res (Node_End node) (\<lambda>e.
              let start = PositionOf fset p;
                  end' = PositionOf fset e;
                  name1 = (if name0 = ''''
                           then ''@'' @ showInt (Line start) @ '':'' @ showInt (Column start)
                           else name0);
                  fe = \<lparr>startOffset = Offset start, startLine = Line start,
                        startCol = Column start, endOffset = Offset end',
                        endLine = Line end', endCol = Column end',
                        name = name1, stmts = []\<rparr>
              in bind_res (VisitBlock fset (stmts fe) b) (\<lambda>(b1, ss).
                   Ok (funcs @ [fe\<lparr>stmts := ss\<rparr>], setBody node b1))))))"

text \<open>The children of a node in the order in which \<^verbatim>\<open>ast.Walk\<close> descends into them.\<close>

fun optStmt :: "Stmt option \<Rightarrow> Node list" where
  "optStmt None = []"
| "optStmt (Some s) = [StmtNode s]"

fun optExpr :: "Expr option \<Rightarrow> Node list" where
  "optExpr None = []"
| "optExpr (Some x) = [ExprNode x]"

fun children :: "Node \<Rightarrow> Node list" where
  "children (ExprNode (Ident p n)) = []"
| "children (ExprNode (StarExpr p x)) = [ExprNode x]"
| "children (ExprNode (IndexExpr x l i r)) = [ExprNode x, ExprNode i]"
| "children (ExprNode (FuncLit tp te tcs b)) = map ExprNode tcs @ [StmtNode (BlockStmt b)]"
| "children (ExprNode (OtherExpr p e cs)) = map ExprNode cs"
| "children (DeclNode (BadDecl f t)) = []"
| "children (DeclNode (GenDecl p e cs)) = map ExprNode cs"
| "children (DeclNode (FuncDecl recv np n tp te tcs b)) =
     (case recv of None \<Rightarrow> [] | Some ts \<Rightarrow> map ExprNode ts) @ [ExprNode (Ident np n)] @
     map ExprNode tcs @ (case b of None \<Rightarrow> [] | Some body \<Rightarrow> [StmtNode (BlockStmt body)])"
| "children (StmtNode (BadStmt f t)) = []"
| "children (StmtNode (DeclStmt d)) = [DeclNode d]"
| "children (StmtNode (EmptyStmt p implicit)) = []"
| "children (StmtNode (LabeledStmt lp ln c s)) = [ExprNode (Ident lp ln), StmtNode s]"
| "children (StmtNode (ExprStmt x)) = [ExprNode x]"
| "children (StmtNode (SendStmt ch a v)) = [ExprNode ch, ExprNode v]"
| "children (StmtNode (IncDecStmt x p t)) = [ExprNode x]"
| "children (StmtNode (AssignStmt lhs p t rhs)) = map ExprNode lhs @ map ExprNode rhs"
| "children (StmtNode (GoStmt p call)) = [ExprNode call]"
| "children (StmtNode (DeferStmt p call)) = [ExprNode call]"
| "children (StmtNode (ReturnStmt p rs)) = map ExprNode rs"
| "children (StmtNode (BranchStmt p t lbl)) =
     (case lbl of Some (lp, ln) \<Rightarrow> [ExprNode (Ident lp ln)] | None \<Rightarrow> [])"
| "children (StmtNode (BlockStmt (Block l xs r))) = map StmtNode xs"
| "children (StmtNode (IfStmt p init cond body els)) =
     optStmt init @ optExpr cond @ [StmtNode (BlockStmt body)] @ optStmt els"
| "children (StmtNode (CaseClause p l c body)) = map ExprNode l @ map StmtNode body"
| "children (StmtNode (SwitchStmt p init tag body)) =
     optStmt init @ optExpr tag @ [StmtNode (BlockStmt body)]"
| "children (StmtNode (TypeSwitchStmt p init assign body)) =
     optStmt init @ optStmt assign @ [StmtNode (BlockStmt body)]"
| "children (StmtNode (CommClause p comm c body)) = optStmt comm @ map StmtNode body"
| "children (StmtNode (SelectStmt p body)) = [StmtNode (BlockStmt body)]"
| "children (StmtNode (ForStmt p init cond post body)) =
     optStmt init @ optExpr cond @ optStmt post @ [StmtNode (BlockStmt body)]"
| "children (StmtNode (RangeStmt p k v tp t x body)) =
     optExpr k @ optExpr v @ [ExprNode x, StmtNode (BlockStmt body)]"

text \<open>
  \<^verbatim>\<open>Visit\<close> rewrites a body before the walk descends into it, so the walk does not
  recurse on subterms of its argument.  The following weight is unchanged by the
  rewriting and decreases from a node to its children.
\<close>

fun isIfStmt :: "Stmt \<Rightarrow> bool" where
  "isIfStmt (IfStmt p init cond body els) = True"
| "isIfStmt _ = False"

fun weightExpr :: "Expr \<Rightarrow> nat"
  and weightExprs :: "Expr list \<Rightarrow> nat"
  and weightStmt :: "Stmt \<Rightarrow> nat"
  and weightStmtOpt :: "Stmt option \<Rightarrow> nat"
  and weightExprOpt :: "Expr option \<Rightarrow> nat"
  and weightStmts :: "Stmt list \<Rightarrow> nat"
  and weightBlock :: "Block \<Rightarrow> nat"
  and weightDecl :: "Decl \<Rightarrow> nat"
where
  "weightExpr (Ident p n) = 1"
| "weightExpr (StarExpr p x) = 1 + weightExpr x"
| "weightExpr (IndexExpr x l i r) = 1 + weightExpr x + weightExpr i"
| "weightExpr (FuncLit tp te tcs b) = 2 + weightExprs tcs + weightBlock b"
| "weightExpr (OtherExpr p e cs) = 1 + weightExprs cs"
| "weightExprs [] = 0"
| "weightExprs (x # xs) = weightExpr x + weightExprs xs"
| "weightStmt (BadStmt f t) = 1"
| "weightStmt (DeclStmt d) = 1 + weightDecl d"
| "weightStmt (EmptyStmt p implicit) = 1"
| "weightStmt (LabeledStmt lp ln c s) = 2 + weightStmt s"
| "weightStmt (ExprStmt x) = 1 + weightExpr x"
| "weightStmt (SendStmt ch a v) = 1 + weightExpr ch + weightExpr v"
| "weightStmt (IncDecStmt x p t) = 1 + weightExpr x"
| "weightStmt (AssignStmt lhs p t rhs) = 1 + weightExprs lhs + weightExprs rhs"
| "weightStmt (GoStmt p call) = 1 + weightExpr call"
| "weightStmt (DeferStmt p call) = 1 + weightExpr call"
| "weightStmt (ReturnStmt p rs) = 1 + weightExprs rs"
| "weightStmt (BranchStmt p t lbl) = 2"
| "weightStmt (BlockStmt b) = 1 + weightBlock b"
| "weightStmt (IfStmt p init cond body els) =
     2 + weightStmtOpt init + weightExprOpt cond + weightBlock body +
     (case els of None \<Rightarrow> 0 | Some e \<Rightarrow> (if isIfStmt e then 2 else 0) + weightStmt e)"
| "weightStmt (CaseClause p l c body) = 1 + weightExprs l + weightStmts body"
| "weightStmt (SwitchStmt p init tag body) =
     2 + weightStmtOpt init + weightExprOpt tag + weightBlock body"
| "weightStmt (TypeSwitchStmt p init assign body) =
     2 + weightStmtOpt init + weightStmtOpt assign + weightBlock body"
| "weightStmt (CommClause p comm c body) = 1 + weightStmtOpt comm + weightStmts body"
| "weightStmt (SelectStmt p body) = 2 + weightBlock body"
| "weightStmt (ForStmt p init cond post body) =
     2 + weightStmtOpt init + weightExprOpt cond + weightStmtOpt post + weightBlock body"
| "weightStmt (RangeStmt p k v tp t x body) =
     2 + weightExprOpt k + weightExprOpt v + weightExpr x + weightBlock body"
| "weightStmtOpt None = 0"
| "weightStmtOpt (Some s) = weightStmt s"
| "weightExprOpt None = 0"
| "weightExprOpt (Some x) = weightExpr x"
| "weightStmts [] = 0"
| "weightStmts (s # ss) = weightStmt s + weightStmts ss"
| "weightBlock (Block l xs r) = 1 + weightStmts xs"
| "weightDecl (BadDecl f t) = 1"
| "weightDecl (GenDecl p e cs) = 1 + weightExprs cs"
| "weightDecl (FuncDecl recv np n tp te tcs b) =
     3 + (case recv of None \<Rightarrow> 0 | Some ts \<Rightarrow> weightExprs ts) + weightExprs tcs +
     (case b of None \<Rightarrow> 0 | Some body \<Rightarrow> weightBlock body)"

fun weight :: "Node \<Rightarrow> nat" where
  "weight (ExprNode x) = weightExpr x"
| "weight (StmtNode s) = weightStmt s"
| "weight (DeclNode d) = weightDecl d"

lemma weightStmt_pos: "0 < weightStmt s"
  by (cases s) simp_all

lemma rewriteElse_weight:
  "rewriteElse e = Ok b \<Longrightarrow>
   weightBlock b = (if isIfStmt e then Suc (weightStmt e) else weightStmt e - 1)"
  by (cases e rule: rewriteElse.cases) (auto simp: bind_res_Ok_iff)

lemma Visit_weight:
  "(\<forall>s1 ss1. VisitStmt fset ss s = Ok (s1, ss1) \<longrightarrow> weightStmt s1 = weightStmt s)"
  "(\<forall>b1 ss1. VisitBlock fset ss b = Ok (b1, ss1) \<longrightarrow> weightBlock b1 = weightBlock b)"
  "(\<forall>xs1 ss1. VisitStmts fset ss xs = Ok (xs1, ss1) \<longrightarrow> weightStmts xs1 = weightStmts xs)"
proof (induction fset ss s and fset ss b and fset ss xs rule: VisitStmt_VisitBlock_VisitStmts.induct)
  case (14 fset ss p init cond body els)
  show ?case
  proof (intro allI impI)
    fix s1 ss1
    assume run: "VisitStmt fset ss (IfStmt p init cond body els) = Ok (s1, ss1)"
    show "weightStmt s1 = weightStmt (IfStmt p init cond body els)"
      using run "14.IH" weightStmt_pos
      by (cases els) (auto simp: bind_res_Ok_iff rewriteElse_weight Suc_pred split: option.splits prod.splits)
  qed
qed (auto simp: bind_res_Ok_iff split: option.splits prod.splits)

lemma weight_map_ExprNode: "sum_list (map (weight \<circ> ExprNode) xs) = weightExprs xs"
  by (induction xs) simp_all

lemma weight_map_StmtNode: "sum_list (map (weight \<circ> StmtNode) xs) = weightStmts xs"
  by (induction xs) simp_all

lemma weight_optStmt: "sum_list (map weight (optStmt s)) = weightStmtOpt s"
  by (cases s) simp_all

lemma weight_optExpr: "sum_list (map weight (optExpr x)) = weightExprOpt x"
  by (cases x) simp_all

lemma weightStmtOpt_le:
  "weightStmtOpt els \<le>
     (case els of None \<Rightarrow> 0 | Some e \<Rightarrow> (if isIfStmt e then 2 else 0) + weightStmt e)"
  by (cases els) simp_all

lemma children_weight: "sum_list (map weight (children n)) < weight n"
proof (cases n)
  case (ExprNode x)
  then show ?thesis
    by (cases x) (simp_all add: weight_map_ExprNode)
next
  case (StmtNode s)
  show ?thesis
  proof (cases s)
    case (BlockStmt b)
    with StmtNode show ?thesis
      by (cases b) (simp add: weight_map_StmtNode)
  next
    case (IfStmt p init cond body els)
    with StmtNode weightStmtOpt_le[of els] show ?thesis
      by (simp add: weight_optStmt weight_optExpr)
  qed (use StmtNode in \<open>simp_all add: weight_map_ExprNode weight_map_StmtNode weight_optStmt
        weight_optExpr split: option.splits\<close>)
next
  case (DeclNode d)
  then show ?thesis
    by (cases d) (simp_all add: weight_map_ExprNode split: option.splits)
qed

lemma Visit_weight_node:
  assumes "Visit fset funcs n = Ok (funcs1, n1)"
  shows "weight n1 = weight n"
proof (cases n)
  case (ExprNode x)
  with assms show ?thesis
    by (cases x) (auto simp: Visit_def bind_res_Ok_iff Visit_weight Let_def)
next
  case (StmtNode s)
  with assms show ?thesis
    by (simp add: Visit_def)
next
  case (DeclNode d)
  with assms show ?thesis
    by (cases d) (auto simp: Visit_def bind_res_Ok_iff Visit_weight Let_def split: option.splits)
qed

text \<open>
  \<^verbatim>\<open>ast.Walk\<close> with a \<^verbatim>\<open>FuncVisitor\<close>: visit the node, then walk its children in
  order.  \<^verbatim>\<open>Visit\<close> always returns the visitor itself, so the whole tree is walked;
  the closing call \<^verbatim>\<open>Visit(nil)\<close> after the children finds no body and does nothing.
\<close>

function walk :: "FileSet \<Rightarrow> FuncExtent list \<Rightarrow> Node \<Rightarrow> FuncExtent list res"
  and walkList :: "FileSet \<Rightarrow> FuncExtent list \<Rightarrow> Node list \<Rightarrow> FuncExtent list res"
where
  "walk fset funcs node =
     bind_res (Visit fset funcs node) (\<lambda>(funcs1, node1). walkList fset funcs1 (children node1))"
| "walkList fset funcs [] = Ok funcs"
| "walkList fset funcs (n # ns) =
     bind_res (walk fset funcs n) (\<lambda>funcs1. walkList fset funcs1 ns)"
  by pat_completeness auto
termination
proof (relation "measure (\<lambda>x. case x of
          Inl (fset, funcs, n) \<Rightarrow> 2 * weight n
        | Inr (fset, funcs, ns) \<Rightarrow> 2 * sum_list (map weight ns) + 1)", goal_cases)
  case 1
  show ?case by simp
next
  case (2 fset funcs node x funcs1 node1)
  then have "weight node1 = weight node"
    using Visit_weight_node[of fset funcs node funcs1 node1] by simp
  with children_weight[of node1] show ?case by simp
next
  case (3 fset funcs n ns)
  show ?case by simp
next
  case (4 fset funcs n ns funcs1)
  have "0 < weight n"
    using children_weight[of n] by simp
  then show ?case by simp
qed

section \<open>Block matcher\<close>

text \<open>
  The inner loop of \<^verbatim>\<open>convertProfile\<close> (lines 154-165) for one statement \<open>s\<close>: it
  scans the blocks in order, leaves the loop at the first block past the end of the
  statement, skips a block before its beginning, and otherwise adds the block's count to
  \<^verbatim>\<open>s.Reached\<close>.
\<close>

fun matchBlocks :: "statement \<Rightarrow> ProfileBlock list \<Rightarrow> statement" where
  "matchBlocks s [] = s"
| "matchBlocks s (b # bs) =
     (if StartLine b > endLine (StmtExtent s) \<or>
         (StartLine b = endLine (StmtExtent s) \<and> StartCol b \<ge> endCol (StmtExtent s))
      then s
      else if EndLine b < startLine (StmtExtent s) \<or>
              (EndLine b = startLine (StmtExtent s) \<and> EndCol b \<le> startCol (StmtExtent s))
      then matchBlocks s bs
      else matchBlocks
             (s\<lparr>Statement :=
                  (Statement s)\<lparr>Reached := Reached (Statement s) + word_of_int (Count b)\<rparr>\<rparr>)
             bs)"

text \<open>
  The outer loop (lines 153-166).  Each \<^verbatim>\<open>statement\<close> holds a pointer to its
  \<^verbatim>\<open>gocov.Statement\<close>, so the loop variable being a copy does not lose the update.
\<close>

definition matchStatements :: "ProfileBlock list \<Rightarrow> statement list \<Rightarrow> statement list" where
  "matchStatements blocks ss = map (\<lambda>s. matchBlocks s blocks) ss"

text \<open>
  The order in which \<^verbatim>\<open>cover.ParseProfiles\<close> leaves the blocks of a file: ascending by
  start line, then by start column.
\<close>

definition startsBefore :: "ProfileBlock \<Rightarrow> ProfileBlock \<Rightarrow> bool" where
  "startsBefore a b \<longleftrightarrow>
     StartLine a < StartLine b \<or> (StartLine a = StartLine b \<and> StartCol a \<le> StartCol b)"

definition sortedByStart :: "ProfileBlock list \<Rightarrow> bool" where
  "sortedByStart blocks \<longleftrightarrow> sorted_wrt startsBefore blocks"

text \<open>
  The overlap test in the words of the specification of the Block Matcher: a block is
  past a statement when it starts after the statement's end line, or on that line at or
  after the end column; it is before the statement when it ends before the statement's
  start line, or on that line at or before the start column.
\<close>

definition blockPast :: "StmtExtent \<Rightarrow> ProfileBlock \<Rightarrow> bool" where
  "blockPast e b \<longleftrightarrow>
     StartLine b > endLine e \<or> (StartLine b = endLine e \<and> StartCol b \<ge> endCol e)"

definition blockBefore :: "StmtExtent \<Rightarrow> ProfileBlock \<Rightarrow> bool" where
  "blockBefore e b \<longleftrightarrow>
     EndLine b < startLine e \<or> (EndLine b = startLine e \<and> EndCol b \<le> startCol e)"

section \<open>Conversion orchestrator\<close>

text \<open>\<^verbatim>\<open>packages.Package\<close> of \<^verbatim>\<open>golang.org/x/tools/go/packages\<close>, with the two fields read.\<close>

record GoPackage =
  PkgPath :: string
  CompiledGoFiles :: "string list"

text \<open>
  \<^verbatim>\<open>type converter struct\<close> (lines 107-109): the map from package path to package, as
  the list of its entries with distinct keys.
\<close>

type_synonym converter = "(string \<times> Package) list"

text \<open>
  What \<^verbatim>\<open>ConvertProfiles\<close> calls outside the package.  \<^verbatim>\<open>ParseProfiles\<close> is
  \<^verbatim>\<open>cover.ParseProfiles\<close>, \<^verbatim>\<open>Load\<close> is \<^verbatim>\<open>packages.Load\<close> with the configuration of
  line 71, \<^verbatim>\<open>ParseFile\<close> is \<^verbatim>\<open>parser.ParseFile\<close> on a new file set and returns that file
  set with the declarations of the file, \<^verbatim>\<open>pathDir\<close> is \<^verbatim>\<open>path.Dir\<close>, and \<^verbatim>\<open>Encode\<close> is
  the JSON encoding of \<^verbatim>\<open>marshalJson\<close> (lines 40-42).  \<^verbatim>\<open>rangeOrder\<close> is the order in
  which the Go runtime ranges over the converter's map at line 96: it yields every
  value once, in an order that the language leaves unspecified.

  \<^verbatim>\<open>AddPackage\<close> is the method of \<^verbatim>\<open>gocovutil.Packages\<close>, the slice of packages that is
  encoded at the end.  It belongs to the repository's package \<^verbatim>\<open>gocovutil\<close>, whose
  source is not at hand, and is a parameter here: given the packages so far and one
  more, it returns the new slice.
\<close>

record Env =
  ParseProfiles :: "string \<Rightarrow> Profile list res"
  Load :: "string list \<Rightarrow> GoPackage list res"
  ParseFile :: "string \<Rightarrow> (FileSet \<times> Decl list) res"
  pathDir :: "string \<Rightarrow> string"
  rangeOrder :: "converter \<Rightarrow> Package list"
  AddPackage :: "Package list \<Rightarrow> Package \<Rightarrow> Package list"
  Encode :: "Package list \<Rightarrow> string res"

text \<open>
  \<^verbatim>\<open>path.Split\<close> cuts after the last slash; \<^verbatim>\<open>strings.TrimSuffix\<close> removes the suffix
  if it is there; \<^verbatim>\<open>filepath.Base\<close> (with slash as the separator) drops trailing
  slashes and returns what follows the last remaining slash, \<^verbatim>\<open>.\<close> for the empty path
  and \<^verbatim>\<open>/\<close> for a path of slashes only.
\<close>

definition pathSplit :: "string \<Rightarrow> string \<times> string" where
  "pathSplit path =
     (let file = rev (takeWhile (\<lambda>c. c \<noteq> CHR ''/'') (rev path))
      in (take (length path - length file) path, file))"

definition TrimSuffix :: "string \<Rightarrow> string \<Rightarrow> string" where
  "TrimSuffix s suffix =
     (if length suffix \<le> length s \<and> drop (length s - length suffix) s = suffix
      then take (length s - length suffix) s else s)"

definition filepathBase :: "string \<Rightarrow> string" where
  "filepathBase path =
     (if path = [] then ''.''
      else let stripped = rev (dropWhile (\<lambda>c. c = CHR ''/'') (rev path));
               last_elem = snd (pathSplit stripped)
           in if last_elem = [] then ''/'' else last_elem)"

text \<open>
  \<^verbatim>\<open>findFuncs\<close> (lines 172-181).  \<^verbatim>\<open>ast.Walk\<close> starts at the \<^verbatim>\<open>*ast.File\<close>, where
  \<^verbatim>\<open>Visit\<close> does nothing, and goes on to its declarations.
\<close>

definition findFuncs :: "Env \<Rightarrow> string \<Rightarrow> FuncExtent list res" where
  "findFuncs env name' =
     bind_res (ParseFile env name') (\<lambda>(fset, decls). walkList fset [] (map DeclNode decls))"

text \<open>
  \<^verbatim>\<open>convertProfile\<close> (lines 117-169).  Lines 132-149 create one \<^verbatim>\<open>gocov.Statement\<close>
  with \<^verbatim>\<open>Reached\<close> 0 per statement extent, put it both into its function's
  \<^verbatim>\<open>Statements\<close> and, with its extent, into the slice \<^verbatim>\<open>stmts\<close>; the matching loop then
  updates the statements through \<^verbatim>\<open>stmts\<close>.  Both slices hold pointers to the same
  statements, in the same order: a function's statements are the next
  \<^verbatim>\<open>len(fe.stmts)\<close> elements of \<^verbatim>\<open>stmts\<close>, which is how \<open>attachStatements\<close> reads them
  back after the matching.  The package is looked up in the converter's map, created
  when absent, and extended by the functions of the file.
\<close>

definition newStatement :: "StmtExtent \<Rightarrow> statement" where
  "newStatement se =
     \<lparr>Statement = \<lparr>S_Start = startOffset se, S_End = endOffset se, Reached = 0\<rparr>,
      StmtExtent = se\<rparr>"

fun attachStatements :: "string \<Rightarrow> FuncExtent list \<Rightarrow> Statement list \<Rightarrow> Function list" where
  "attachStatements file [] sts = []"
| "attachStatements file (fe # fes) sts =
     \<lparr>F_Name = name fe, F_File = file, F_Start = startOffset fe, F_End = endOffset fe,
      Statements = take (length (stmts fe)) sts\<rparr>
     # attachStatements file fes (drop (length (stmts fe)) sts)"

definition convertProfile :: "Env \<Rightarrow> converter \<Rightarrow> Profile \<Rightarrow> string \<Rightarrow> string \<Rightarrow> converter res" where
  "convertProfile env c p absFilePath pkgPath =
     (let pkg = (case map_of c pkgPath of
                   None \<Rightarrow> \<lparr>P_Name = pkgPath, Functions = []\<rparr>
                 | Some pkg \<Rightarrow> pkg)
      in bind_res (findFuncs env absFilePath) (\<lambda>extents.
           let sts = concat (map (\<lambda>fe. map newStatement (stmts fe)) extents);
               matched = matchStatements (Blocks p) sts;
               fs = attachStatements absFilePath extents (map Statement matched)
           in Ok (AList.update pkgPath (pkg\<lparr>Functions := Functions pkg @ fs\<rparr>) c)))"

text \<open>
  The loop of lines 60-69.  \<^verbatim>\<open>mapUniqPackageNames\<close> holds exactly the names appended to
  \<^verbatim>\<open>uniqPackageNames\<close> so far, so its membership test is the one on the list.
\<close>

fun uniqPackageNames :: "Env \<Rightarrow> string list \<Rightarrow> Profile list \<Rightarrow> string list" where
  "uniqPackageNames env names [] = names"
| "uniqPackageNames env names (profile # rest) =
     (let packageName = pathDir env (FileName profile)
      in if packageName \<in> set names then uniqPackageNames env names rest
         else uniqPackageNames env (names @ [packageName]) rest)"

text \<open>The map of lines 78-81; a later package replaces an earlier one of the same path.\<close>

definition pkgmapOf :: "GoPackage list \<Rightarrow> (string \<rightharpoonup> GoPackage)" where
  "pkgmapOf packages = foldl (\<lambda>m pkg. m(PkgPath pkg \<mapsto> pkg)) Map.empty packages"

text \<open>
  The loops of lines 83-94: \<open>convertFiles\<close> is the inner loop over the compiled files
  of the entry's package, \<open>convertEntries\<close> the outer loop over the entries of the
  profile.  \<^verbatim>\<open>pkgmap[pkgpath]\<close> is nil for a path that is not a key, and line 87 reads a
  field of it.
\<close>

fun convertFiles :: "Env \<Rightarrow> converter \<Rightarrow> Profile \<Rightarrow> string \<Rightarrow> string \<Rightarrow> string list \<Rightarrow> converter res" where
  "convertFiles env c profile pkgPath filename [] = Ok c"
| "convertFiles env c profile pkgPath filename (abspath # rest) =
     (if filepathBase abspath = filename
      then (case convertProfile env c profile abspath pkgPath of
              Ok c1 \<Rightarrow> convertFiles env c1 profile pkgPath filename rest
            | Err e \<Rightarrow> Err (''convert profile '' @ FileName profile @ '': '' @ e)
            | Panic m \<Rightarrow> Panic m)
      else convertFiles env c profile pkgPath filename rest)"

fun convertEntries :: "Env \<Rightarrow> (string \<rightharpoonup> GoPackage) \<Rightarrow> converter \<Rightarrow> Profile list \<Rightarrow> converter res" where
  "convertEntries env pkgmap c [] = Ok c"
| "convertEntries env pkgmap c (profile # rest) =
     (let (pkgpath, filename) = pathSplit (FileName profile);
          pkgpath = TrimSuffix pkgpath ''/''
      in case pkgmap pkgpath of
           None \<Rightarrow> Panic ''invalid memory address or nil pointer dereference''
         | Some pkg \<Rightarrow>
             bind_res (convertFiles env c profile (PkgPath pkg) filename (CompiledGoFiles pkg))
               (\<lambda>c1. convertEntries env pkgmap c1 rest))"

text \<open>
  The body of the loop over the file names (lines 50-98), the loop itself, and
  \<^verbatim>\<open>ConvertProfiles\<close> (lines 44-105).
\<close>

definition convertFile :: "Env \<Rightarrow> Package list \<Rightarrow> string \<Rightarrow> Package list res" where
  "convertFile env ps filename =
     bind_res (ParseProfiles env filename) (\<lambda>profiles.
       (case Load env (uniqPackageNames env [] profiles) of
          Err e \<Rightarrow> Err (''load packages: '' @ e)
        | Panic m \<Rightarrow> Panic m
        | Ok packages \<Rightarrow>
            bind_res (convertEntries env (pkgmapOf packages) [] profiles) (\<lambda>c.
              Ok (foldl (AddPackage env) ps (rangeOrder env c)))))"

fun convertAll :: "Env \<Rightarrow> Package list \<Rightarrow> string list \<Rightarrow> Package list res" where
  "convertAll env ps [] = Ok ps"
| "convertAll env ps (filename # rest) =
     bind_res (convertFile env ps filename) (\<lambda>ps1. convertAll env ps1 rest)"

definition ConvertProfiles :: "Env \<Rightarrow> string list \<Rightarrow> string res" where
  "ConvertProfiles env filenames =
     bind_res (convertAll env [] filenames) (\<lambda>ps. Encode env ps)"

section \<open>Notions used to state the properties\<close>

text \<open>
  The whole extent of a statement, from its \<^verbatim>\<open>Pos()\<close> to its \<^verbatim>\<open>End()\<close>: what the
  specification's table calls the whole statement's own extent.
\<close>

definition wholeExtent :: "FileSet \<Rightarrow> Stmt \<Rightarrow> StmtExtent res" where
  "wholeExtent fset s =
     bind_res (Stmt_Pos s) (\<lambda>p.
     bind_res (Stmt_End s) (\<lambda>e. Ok (mkExtent (PositionOf fset p) (PositionOf fset e))))"

fun isBlockStmt :: "Stmt \<Rightarrow> bool" where
  "isBlockStmt (BlockStmt b) = True"
| "isBlockStmt _ = False"

subsection \<open>Positions within a range\<close>

text \<open>
  What the parser guarantees about a function: the tokens and operands of the
  statements in its body lie between the function's first position and its end.
  \<open>stmtWithin lo hi s\<close> says so for the operands and tokens that stand for \<open>s\<close> and for
  the statements nested in it: an operand starts at or after \<open>lo\<close> and ends at or before
  \<open>hi\<close>, and so does a keyword or operator with its own text.  Nothing is said about
  the braces of blocks.
\<close>

definition exprWithin :: "Pos \<Rightarrow> Pos \<Rightarrow> Expr \<Rightarrow> bool" where
  "exprWithin lo hi x =
     (case Expr_End x of Ok e \<Rightarrow> lo \<le> Expr_Pos x \<and> Expr_Pos x \<le> e \<and> e \<le> hi | _ \<Rightarrow> False)"

definition declWithin :: "Pos \<Rightarrow> Pos \<Rightarrow> Decl \<Rightarrow> bool" where
  "declWithin lo hi d =
     (case Decl_End d of Ok e \<Rightarrow> lo \<le> Decl_Pos d \<and> Decl_Pos d \<le> e \<and> e \<le> hi | _ \<Rightarrow> False)"

definition tokenWithin :: "Pos \<Rightarrow> Pos \<Rightarrow> Pos \<Rightarrow> string \<Rightarrow> bool" where
  "tokenWithin lo hi p tok = (tok \<noteq> [] \<and> lo \<le> p \<and> p + int (length tok) \<le> hi)"

fun stmtWithin :: "Pos \<Rightarrow> Pos \<Rightarrow> Stmt \<Rightarrow> bool"
  and stmtOptWithin :: "Pos \<Rightarrow> Pos \<Rightarrow> Stmt option \<Rightarrow> bool"
  and blockWithin :: "Pos \<Rightarrow> Pos \<Rightarrow> Block \<Rightarrow> bool"
  and stmtsWithin :: "Pos \<Rightarrow> Pos \<Rightarrow> Stmt list \<Rightarrow> bool"
where
  "stmtWithin lo hi (BadStmt f t) = True"
| "stmtWithin lo hi (DeclStmt d) = declWithin lo hi d"
| "stmtWithin lo hi (EmptyStmt p implicit) = True"
| "stmtWithin lo hi (LabeledStmt lp ln c s) = stmtWithin lo hi s"
| "stmtWithin lo hi (ExprStmt x) = exprWithin lo hi x"
| "stmtWithin lo hi (SendStmt ch a v) = (exprWithin lo hi ch \<and> exprWithin lo hi v)"
| "stmtWithin lo hi (IncDecStmt x p t) = (exprWithin lo hi x \<and> tokenWithin lo hi p t)"
| "stmtWithin lo hi (AssignStmt lhs p t rhs) = tokenWithin lo hi p t"
| "stmtWithin lo hi (GoStmt p call) = tokenWithin lo hi p ''go''"
| "stmtWithin lo hi (DeferStmt p call) = tokenWithin lo hi p ''defer''"
| "stmtWithin lo hi (ReturnStmt p rs) = tokenWithin lo hi p ''return''"
| "stmtWithin lo hi (BranchStmt p t lbl) =
     (tokenWithin lo hi p t \<and>
      (case lbl of None \<Rightarrow> True | Some (lp, ln) \<Rightarrow> exprWithin lo hi (Ident lp ln)))"
| "stmtWithin lo hi (BlockStmt b) = blockWithin lo hi b"
| "stmtWithin lo hi (IfStmt p init cond body els) =
     (stmtOptWithin lo hi init \<and>
      (case cond of None \<Rightarrow> True | Some c \<Rightarrow> exprWithin lo hi c) \<and>
      blockWithin lo hi body \<and> stmtOptWithin lo hi els)"
| "stmtWithin lo hi (CaseClause p l c body) = stmtsWithin lo hi body"
| "stmtWithin lo hi (SwitchStmt p init tag body) =
     (tokenWithin lo hi p ''switch'' \<and> stmtOptWithin lo hi init \<and> blockWithin lo hi body)"
| "stmtWithin lo hi (TypeSwitchStmt p init assign body) =
     (tokenWithin lo hi p ''switch'' \<and> stmtOptWithin lo hi init \<and>
      stmtOptWithin lo hi assign \<and> blockWithin lo hi body)"
| "stmtWithin lo hi (CommClause p comm c body) = stmtsWithin lo hi body"
| "stmtWithin lo hi (SelectStmt p body) =
     (tokenWithin lo hi p ''select'' \<and> blockWithin lo hi body)"
| "stmtWithin lo hi (ForStmt p init cond post body) =
     (tokenWithin lo hi p ''for'' \<and> stmtOptWithin lo hi init \<and>
      (case cond of None \<Rightarrow> True | Some c \<Rightarrow> exprWithin lo hi c) \<and>
      stmtOptWithin lo hi post \<and> blockWithin lo hi body)"
| "stmtWithin lo hi (RangeStmt p k v tp t x body) =
     (exprWithin lo hi x \<and> blockWithin lo hi body)"
| "stmtOptWithin lo hi None = True"
| "stmtOptWithin lo hi (Some s) = stmtWithin lo hi s"
| "blockWithin lo hi (Block l xs r) = stmtsWithin lo hi xs"
| "stmtsWithin lo hi [] = True"
| "stmtsWithin lo hi (s # ss) = (stmtWithin lo hi s \<and> stmtsWithin lo hi ss)"

definition extentWithin :: "FileSet \<Rightarrow> Pos \<Rightarrow> Pos \<Rightarrow> StmtExtent \<Rightarrow> bool" where
  "extentWithin fset lo hi se \<longleftrightarrow>
     lo - base fset \<le> startOffset se \<and> endOffset se \<le> hi - base fset"

text \<open>A file set whose file covers the positions from \<open>lo\<close> to \<open>hi\<close>.\<close>

definition inFile :: "FileSet \<Rightarrow> Pos \<Rightarrow> Pos \<Rightarrow> bool" where
  "inFile fset lo hi \<longleftrightarrow> 0 < base fset \<and> base fset \<le> lo \<and> hi \<le> base fset + fsize fset"

definition allWithin :: "FileSet \<Rightarrow> Pos \<Rightarrow> Pos \<Rightarrow> StmtExtent list \<Rightarrow> bool" where
  "allWithin fset lo hi ss \<longleftrightarrow> (\<forall>se\<in>set ss. extentWithin fset lo hi se)"

subsection \<open>The functions of a tree\<close>

text \<open>
  The body of a function-bearing node; the function-bearing nodes of a tree in the order
  of the walk; and the trees in which every function's body lies within the function,
  which itself lies in the file.
\<close>

fun funcBody :: "Node \<Rightarrow> Block option" where
  "funcBody (ExprNode (FuncLit tp te tcs b)) = Some b"
| "funcBody (DeclNode (FuncDecl recv np n tp te tcs b)) = b"
| "funcBody node = None"

lemma children_weight_less: "c \<in> set (children n) \<Longrightarrow> weight c < weight n"
proof -
  assume "c \<in> set (children n)"
  then have "weight c \<le> sum_list (map weight (children n))"
    by (simp add: member_le_sum_list)
  with children_weight[of n] show ?thesis by simp
qed

function funcNodes :: "Node \<Rightarrow> Node list" where
  "funcNodes n =
     (if funcBody n = None then [] else [n]) @ concat (map funcNodes (children n))"
  by pat_completeness auto
termination
  by (relation "measure weight") (auto simp: children_weight_less)

declare funcNodes.simps [simp del]

definition funcWellNested :: "FileSet \<Rightarrow> Node \<Rightarrow> bool" where
  "funcWellNested fset n =
     (case funcBody n of
        None \<Rightarrow> True
      | Some b \<Rightarrow>
          (case Node_Pos n of
             Ok lo \<Rightarrow>
               (case Node_End n of
                  Ok hi \<Rightarrow> base fset \<le> lo \<and> lo \<le> hi \<and> hi \<le> base fset + fsize fset \<and>
                           blockWithin lo hi b
                | _ \<Rightarrow> False)
           | _ \<Rightarrow> False))"

definition wellNested :: "FileSet \<Rightarrow> Node \<Rightarrow> bool" where
  "wellNested fset n = list_all (funcWellNested fset) (funcNodes n)"

definition stmtsContained :: "FuncExtent \<Rightarrow> bool" where
  "stmtsContained fe \<longleftrightarrow>
     (\<forall>se\<in>set (stmts fe). startOffset fe \<le> startOffset se \<and> endOffset se \<le> endOffset fe)"

subsection \<open>An example file\<close>

text \<open>
  The file \<^verbatim>\<open>func f() { x := 1; if x > 0 { return } else { x++ } }\<close> of 53 bytes on one
  line, as the parser returns it.
\<close>

definition exampleFileSet :: FileSet where
  "exampleFileSet = \<lparr>base = 1, fsize = 53, lineOf = (\<lambda>off. 1), columnOf = (\<lambda>off. off + 1)\<rparr>"

definition exampleDecl :: Decl where
  "exampleDecl =
     FuncDecl None 6 ''f'' 1 9 []
       (Some (Block 10
          [AssignStmt [Ident 12 ''x''] 14 '':='' [OtherExpr 17 18 []],
           IfStmt 20 None (Some (OtherExpr 23 28 [Ident 23 ''x'', OtherExpr 27 28 []]))
             (Block 29 [ReturnStmt 31 []] 38)
             (Some (BlockStmt (Block 45 [IncDecStmt (Ident 47 ''x'') 48 ''++''] 51)))]
          53))"

definition exampleEnv :: Env where
  "exampleEnv =
     \<lparr>ParseProfiles = (\<lambda>f. Ok []), Load = (\<lambda>names. Ok []),
      ParseFile = (\<lambda>f. Ok (exampleFileSet, [exampleDecl])), pathDir = (\<lambda>p. p),
      rangeOrder = map snd, AddPackage = (\<lambda>ps p. ps @ [p]), Encode = (\<lambda>ps. Ok [])\<rparr>"

section \<open>Properties of the block matcher\<close>

lemma matchBlocks_Ext: "StmtExtent (matchBlocks s bs) = StmtExtent s"
  by (induction s bs rule: matchBlocks.induct) simp_all

lemma blockPast_mono: "startsBefore b c \<Longrightarrow> blockPast e b \<Longrightarrow> blockPast e c"
  unfolding startsBefore_def blockPast_def by linarith

lemma matchBlocks_step:
  "matchBlocks s (b # bs) =
     (if blockPast (StmtExtent s) b then s
      else if blockBefore (StmtExtent s) b then matchBlocks s bs
      else matchBlocks
             (s\<lparr>Statement := (Statement s)\<lparr>Reached := Reached (Statement s) + word_of_int (Count b)\<rparr>\<rparr>) bs)"
  by (simp add: blockPast_def blockBefore_def)

text \<open>
  Leaving the loop at the first block past the statement loses nothing when the blocks
  are sorted by start: every later block is past the statement too.
\<close>

lemma matchBlocks_sum:
  "sortedByStart bs \<Longrightarrow>
   Reached (Statement (matchBlocks s bs)) =
     Reached (Statement s) +
     (\<Sum>b\<leftarrow>filter (\<lambda>b. \<not> blockPast (StmtExtent s) b \<and> \<not> blockBefore (StmtExtent s) b) bs.
        word_of_int (Count b))"
proof (induction bs arbitrary: s)
  case Nil
  then show ?case by simp
next
  case (Cons b bs)
  from Cons.prems have later: "\<forall>c\<in>set bs. startsBefore b c" and srt: "sortedByStart bs"
    by (simp_all add: sortedByStart_def)
  show ?case
  proof (cases "blockPast (StmtExtent s) b")
    case True
    with later have "\<forall>c\<in>set (b # bs). blockPast (StmtExtent s) c"
      by (auto intro: blockPast_mono)
    then have "filter (\<lambda>b. \<not> blockPast (StmtExtent s) b \<and> \<not> blockBefore (StmtExtent s) b) (b # bs) = []"
      by (simp add: filter_empty_conv)
    with True show ?thesis
      by (simp only: matchBlocks_step if_True list.map sum_list.Nil add_0_right)
  next
    case False
    show ?thesis
    proof (cases "blockBefore (StmtExtent s) b")
      case True
      with False Cons.IH[OF srt, of s] show ?thesis
        by (simp only: matchBlocks_step if_True if_False filter.simps simp_thms)
    next
      case overlap: False
      let ?s' = "s\<lparr>Statement := (Statement s)\<lparr>Reached := Reached (Statement s) + word_of_int (Count b)\<rparr>\<rparr>"
      have "StmtExtent ?s' = StmtExtent s" by simp
      with False overlap Cons.IH[OF srt, of ?s'] show ?thesis
        by (simp add: matchBlocks_step add.assoc del: matchBlocks.simps)
    qed
  qed
qed

text \<open>
  Claim C1 (block matcher overlap law).  With the blocks sorted ascending by start
  position, the matching loop leaves in every statement's \<^verbatim>\<open>Reached\<close> its previous value
  (0 for the statements \<^verbatim>\<open>convertProfile\<close> has just created) plus the sum, in 64-bit
  arithmetic, of the counts of exactly those blocks that are neither past nor before the
  statement: a block contributes if and only if it passes the overlap test, and the
  contributions of several overlapping blocks are added up.
\<close>

theorem block_matcher_overlap_law:
  assumes "sortedByStart blocks"
  shows "map (\<lambda>s. Reached (Statement s)) (matchStatements blocks ss) =
         map (\<lambda>s. Reached (Statement s) +
                (\<Sum>b\<leftarrow>filter (\<lambda>b. \<not> blockPast (StmtExtent s) b \<and>
                                 \<not> blockBefore (StmtExtent s) b) blocks.
                   word_of_int (Count b))) ss \<and>
         map (\<lambda>s. Reached (Statement s)) (matchStatements blocks (map newStatement ses)) =
         map (\<lambda>se. \<Sum>b\<leftarrow>filter (\<lambda>b. \<not> blockPast se b \<and> \<not> blockBefore se b) blocks.
                     word_of_int (Count b)) ses"
  using assms by (simp add: matchStatements_def matchBlocks_sum newStatement_def)

text \<open>
  A statement on line 3, columns 5 to 20, with Reached 0, and four sorted blocks: one
  before it (count 7), two overlapping it (counts 5 and 2) and one starting at its end
  column (count 9).  The statement ends with Reached 5 + 2.
\<close>

theorem block_matcher_overlap_law_witness:
  "sortedByStart
     [\<lparr>StartLine = 1, StartCol = 1, EndLine = 2, EndCol = 10, NumStmt = 1, Count = 7\<rparr>,
      \<lparr>StartLine = 3, StartCol = 1, EndLine = 3, EndCol = 10, NumStmt = 1, Count = 5\<rparr>,
      \<lparr>StartLine = 3, StartCol = 8, EndLine = 4, EndCol = 2, NumStmt = 1, Count = 2\<rparr>,
      \<lparr>StartLine = 3, StartCol = 20, EndLine = 5, EndCol = 1, NumStmt = 1, Count = 9\<rparr>] \<and>
   map (\<lambda>s. Reached (Statement s))
     (matchStatements
        [\<lparr>StartLine = 1, StartCol = 1, EndLine = 2, EndCol = 10, NumStmt = 1, Count = 7\<rparr>,
         \<lparr>StartLine = 3, StartCol = 1, EndLine = 3, EndCol = 10, NumStmt = 1, Count = 5\<rparr>,
         \<lparr>StartLine = 3, StartCol = 8, EndLine = 4, EndCol = 2, NumStmt = 1, Count = 2\<rparr>,
         \<lparr>StartLine = 3, StartCol = 20, EndLine = 5, EndCol = 1, NumStmt = 1, Count = 9\<rparr>]
        [\<lparr>Statement = \<lparr>S_Start = 40, S_End = 55, Reached = 0\<rparr>,
          StmtExtent = \<lparr>startOffset = 40, startLine = 3, startCol = 5,
                 endOffset = 55, endLine = 3, endCol = 20\<rparr>\<rparr>]) = [7]"
proof -
  have srt: "sortedByStart
     [\<lparr>StartLine = 1, StartCol = 1, EndLine = 2, EndCol = 10, NumStmt = 1, Count = 7\<rparr>,
      \<lparr>StartLine = 3, StartCol = 1, EndLine = 3, EndCol = 10, NumStmt = 1, Count = 5\<rparr>,
      \<lparr>StartLine = 3, StartCol = 8, EndLine = 4, EndCol = 2, NumStmt = 1, Count = 2\<rparr>,
      \<lparr>StartLine = 3, StartCol = 20, EndLine = 5, EndCol = 1, NumStmt = 1, Count = 9\<rparr>]"
    by (simp add: sortedByStart_def startsBefore_def)
  show ?thesis
    using srt block_matcher_overlap_law[OF srt,
        of "[\<lparr>Statement = \<lparr>S_Start = 40, S_End = 55, Reached = 0\<rparr>,
             StmtExtent = \<lparr>startOffset = 40, startLine = 3, startCol = 5,
                    endOffset = 55, endLine = 3, endCol = 20\<rparr>\<rparr>]"]
    by (simp add: blockPast_def blockBefore_def)
qed

section \<open>Properties of the statement extent extractor\<close>

subsection \<open>Send and increment/decrement statements\<close>

text \<open>
  Claim C4 as stated does not hold.  For \<^verbatim>\<open>x++\<close> with \<^verbatim>\<open>x\<close> at position 10 the whole
  statement extends over offsets 9 to 12, and the extractor records offsets 9 to 10;
  for \<^verbatim>\<open>c <- v\<close> the whole statement extends over offsets 9 to 15, and the extractor
  again records offsets 9 to 10.
\<close>

theorem send_incdec_whole_extent_counterexample:
  "wholeExtent \<lparr>base = 1, fsize = 100, lineOf = (\<lambda>off. 1), columnOf = (\<lambda>off. off + 1)\<rparr>
     (IncDecStmt (Ident 10 ''x'') 11 ''++'') =
     Ok \<lparr>startOffset = 9, startLine = 1, startCol = 10,
         endOffset = 12, endLine = 1, endCol = 13\<rparr> \<and>
   VisitStmt \<lparr>base = 1, fsize = 100, lineOf = (\<lambda>off. 1), columnOf = (\<lambda>off. off + 1)\<rparr> []
     (IncDecStmt (Ident 10 ''x'') 11 ''++'') =
     Ok (IncDecStmt (Ident 10 ''x'') 11 ''++'',
         [\<lparr>startOffset = 9, startLine = 1, startCol = 10,
           endOffset = 10, endLine = 1, endCol = 11\<rparr>]) \<and>
   wholeExtent \<lparr>base = 1, fsize = 100, lineOf = (\<lambda>off. 1), columnOf = (\<lambda>off. off + 1)\<rparr>
     (SendStmt (Ident 10 ''c'') 12 (Ident 15 ''v'')) =
     Ok \<lparr>startOffset = 9, startLine = 1, startCol = 10,
         endOffset = 15, endLine = 1, endCol = 16\<rparr> \<and>
   VisitStmt \<lparr>base = 1, fsize = 100, lineOf = (\<lambda>off. 1), columnOf = (\<lambda>off. off + 1)\<rparr> []
     (SendStmt (Ident 10 ''c'') 12 (Ident 15 ''v'')) =
     Ok (SendStmt (Ident 10 ''c'') 12 (Ident 15 ''v''),
         [\<lparr>startOffset = 9, startLine = 1, startCol = 10,
           endOffset = 10, endLine = 1, endCol = 11\<rparr>])"
  by (simp add: wholeExtent_def collectExpr_def mkExtent_def PositionOf_def)

text \<open>
  Claim C4, amended.  For a send statement the extractor records the extent of the
  channel operand, and for an increment or decrement statement the extent of the
  operand: from the operand's \<^verbatim>\<open>Pos()\<close>, which is also where the statement starts, to
  the operand's \<^verbatim>\<open>End()\<close>.  The arrow and the value sent, and the \<^verbatim>\<open>++\<close> or \<^verbatim>\<open>--\<close>
  token, are not part of it.
\<close>

theorem send_incdec_operand_extent:
  assumes "Expr_End x = Ok e"
  shows "VisitStmt fset ss (SendStmt x arrow v) =
           Ok (SendStmt x arrow v,
               ss @ [mkExtent (PositionOf fset (Expr_Pos x)) (PositionOf fset e)]) \<and>
         VisitStmt fset ss (IncDecStmt x p tok) =
           Ok (IncDecStmt x p tok,
               ss @ [mkExtent (PositionOf fset (Expr_Pos x)) (PositionOf fset e)])"
  using assms by (simp add: collectExpr_def)

theorem send_incdec_operand_extent_witness:
  "Expr_End (Ident 10 ''c'') = Ok 11 \<and>
   VisitStmt \<lparr>base = 1, fsize = 100, lineOf = (\<lambda>off. 1), columnOf = (\<lambda>off. off + 1)\<rparr> []
     (SendStmt (Ident 10 ''c'') 12 (Ident 15 ''v'')) =
     Ok (SendStmt (Ident 10 ''c'') 12 (Ident 15 ''v''),
         [\<lparr>startOffset = 9, startLine = 1, startCol = 10,
           endOffset = 10, endLine = 1, endCol = 11\<rparr>]) \<and>
   VisitStmt \<lparr>base = 1, fsize = 100, lineOf = (\<lambda>off. 1), columnOf = (\<lambda>off. off + 1)\<rparr> []
     (IncDecStmt (Ident 10 ''c'') 11 ''--'') =
     Ok (IncDecStmt (Ident 10 ''c'') 11 ''--'',
         [\<lparr>startOffset = 9, startLine = 1, startCol = 10,
           endOffset = 10, endLine = 1, endCol = 11\<rparr>])"
proof -
  have e: "Expr_End (Ident 10 ''c'') = Ok 11" by simp
  show ?thesis
    using e send_incdec_operand_extent[OF e,
        of "\<lparr>base = 1, fsize = 100, lineOf = (\<lambda>off. 1), columnOf = (\<lambda>off. off + 1)\<rparr>"
           "[]" 12 "Ident 15 ''v''" 11 "''--''"]
    by (simp add: mkExtent_def PositionOf_def)
qed

subsection \<open>Assignments\<close>

text \<open>
  Claim C6.  For an assignment whose operator token lies in the file, the extractor
  records exactly one extent; it starts at the byte offset of the operator token and is
  one byte long, whatever the operator is.
\<close>

theorem assignment_extent_one_byte:
  assumes "0 < base fset" and "base fset \<le> p" and "p < base fset + fsize fset"
  shows "\<exists>e. VisitStmt fset ss (AssignStmt lhs p tok rhs) =
               Ok (AssignStmt lhs p tok rhs, ss @ [e]) \<and>
             startOffset e = p - base fset \<and> endOffset e = startOffset e + 1"
  using assms by (simp add: collectToken_def mkExtent_def PositionOf_def)

text \<open>The declare-assign \<^verbatim>\<open>x := y\<close> with \<^verbatim>\<open>:=\<close> at position 10 of a file of 100 bytes.\<close>

theorem assignment_extent_one_byte_witness:
  "(0::int) < 1 \<and> (1::int) \<le> 10 \<and> (10::int) < 1 + 100 \<and>
   (\<exists>e. VisitStmt \<lparr>base = 1, fsize = 100, lineOf = (\<lambda>off. 1), columnOf = (\<lambda>off. off + 1)\<rparr> []
          (AssignStmt [Ident 8 ''x''] 10 '':='' [Ident 13 ''y'']) =
          Ok (AssignStmt [Ident 8 ''x''] 10 '':='' [Ident 13 ''y''], [] @ [e]) \<and>
        startOffset e = 10 - 1 \<and> endOffset e = startOffset e + 1)"
  using assignment_extent_one_byte[of
      "\<lparr>base = 1, fsize = 100, lineOf = (\<lambda>off. 1), columnOf = (\<lambda>off. off + 1)\<rparr>"
      10 "[]" "[Ident 8 ''x'']" "'':=''" "[Ident 13 ''y'']"]
  by simp

subsection \<open>Else branches\<close>





lemma rewriteElse_other:
  "\<not> isIfStmt e \<Longrightarrow> \<not> isBlockStmt e \<Longrightarrow> rewriteElse e = Panic ''unexpected node type in if''"
  by (cases e rule: rewriteElse.cases) simp_all

lemma Node_End_not_Err:
  "Expr_End x \<noteq> Err m" "Exprs_lastEnd xs \<noteq> Err m" "Stmt_End s \<noteq> Err m"
  "Stmts_lastEnd d ss \<noteq> Err m" "Block_End b \<noteq> Err m" "Decl_End dc \<noteq> Err m"
  by (induction x and xs and s and d ss and b and dc
      rule: Expr_End_Exprs_lastEnd_Stmt_End_Stmts_lastEnd_Block_End_Decl_End.induct)
     (auto split: option.splits)

lemma bind_res_Err_iff:
  "bind_res m f = Err e \<longleftrightarrow> m = Err e \<or> (\<exists>x. m = Ok x \<and> f x = Err e)"
  by (cases m) auto

lemma Stmt_Pos_not_Err: "Stmt_Pos s \<noteq> Err m"
  by (cases s rule: Stmt_Pos.cases) (auto split: list.splits)

lemma collectExpr_not_Err: "collectExpr fset ss n \<noteq> Err m"
  by (cases n) (auto simp: collectExpr_def bind_res_Err_iff Node_End_not_Err Stmt_Pos_not_Err)

lemma rewriteElse_not_Err: "rewriteElse e \<noteq> Err m"
  by (cases e rule: rewriteElse.cases)
     (auto simp: bind_res_Err_iff Node_End_not_Err split: option.splits)

lemma VisitStmt_not_Err:
  "VisitStmt fset ss s \<noteq> Err m"
  "VisitBlock fset ss b \<noteq> Err m"
  "VisitStmts fset ss xs \<noteq> Err m"
  by (induction fset ss s and fset ss b and fset ss xs
      rule: VisitStmt_VisitBlock_VisitStmts.induct)
     (auto simp: bind_res_Err_iff collectExpr_not_Err rewriteElse_not_Err
           split: option.splits prod.splits)

text \<open>
  Claim C8 as stated does not hold: an else branch that is an expression statement makes
  \<^verbatim>\<open>VisitStmt\<close> panic, and \<^verbatim>\<open>ConvertProfiles\<close> on a file with such a statement ends
  in that panic, not in an error result.
\<close>

theorem malformed_else_error_result_counterexample:
  "VisitStmt \<lparr>base = 1, fsize = 100, lineOf = (\<lambda>off. 1), columnOf = (\<lambda>off. off + 1)\<rparr> []
     (IfStmt 1 None (Some (Ident 4 ''a'')) (Block 6 [] 7) (Some (ExprStmt (Ident 14 ''x'')))) =
   Panic ''unexpected node type in if'' \<and>
   ConvertProfiles
     \<lparr>ParseProfiles =
        (\<lambda>f. Ok [\<lparr>FileName = ''example.com/pkg/a.go'', Mode = ''set'', Blocks = []\<rparr>]),
      Load = (\<lambda>names. Ok [\<lparr>PkgPath = ''example.com/pkg'',
                               CompiledGoFiles = [''/src/pkg/a.go'']\<rparr>]),
      ParseFile =
        (\<lambda>f. Ok (\<lparr>base = 1, fsize = 100, lineOf = (\<lambda>off. 1), columnOf = (\<lambda>off. off + 1)\<rparr>,
                  [FuncDecl None 6 ''f'' 1 9 []
                     (Some (Block 10
                        [IfStmt 12 None (Some (Ident 15 ''a'')) (Block 17 [] 18)
                           (Some (ExprStmt (Ident 25 ''x'')))] 30))])),
      pathDir = (\<lambda>p. ''example.com/pkg''),
      rangeOrder = map snd, AddPackage = (\<lambda>ps p. ps @ [p]),
      Encode = (\<lambda>ps. Ok (concat (map P_Name ps)))\<rparr>
     [''c.out''] = Panic ''unexpected node type in if''"
  by (simp add: collectExpr_def ConvertProfiles_def convertFile_def pkgmapOf_def pathSplit_def
      TrimSuffix_def filepathBase_def convertProfile_def findFuncs_def Visit_def
      functionName_def)

text \<open>
  Claim C8, amended.  When the else branch is neither an if statement nor a block, the
  visit of the if statement panics: with the value \<^verbatim>\<open>"unexpected node type in if"\<close>,
  unless visiting the statement's init, condition or body has panicked before, as it
  would without the else branch.  \<^verbatim>\<open>VisitStmt\<close> has no error result, and nothing
  recovers from the panic.
\<close>

theorem malformed_else_panics:
  assumes "\<not> isIfStmt e" and "\<not> isBlockStmt e"
  shows "\<exists>m. VisitStmt fset ss (IfStmt p init cond body (Some e)) = Panic m \<and>
             (m = ''unexpected node type in if'' \<or>
              VisitStmt fset ss (IfStmt p init cond body None) = Panic m)"
proof -
  have rw: "rewriteElse e = Panic ''unexpected node type in if''"
    using assms by (rule rewriteElse_other)
  let ?withElse = "VisitStmt fset ss (IfStmt p init cond body (Some e))"
  let ?without = "VisitStmt fset ss (IfStmt p init cond body None)"
  have noErr: "?without \<noteq> Err m" for m
    by (rule VisitStmt_not_Err)
  show ?thesis
  proof (cases ?without)
    case (Ok y)
    then have "?withElse = Panic ''unexpected node type in if''"
      using rw by (auto simp: bind_res_Ok_iff split: prod.splits)
    then show ?thesis by simp
  next
    case (Err m)
    with noErr show ?thesis by simp
  next
    case (Panic m)
    then have "?withElse = Panic m"
      by (auto simp: bind_res_def split: res.splits prod.splits)
    with Panic show ?thesis by simp
  qed
qed

theorem malformed_else_panics_witness:
  "\<not> isIfStmt (ExprStmt (Ident 14 ''x'')) \<and> \<not> isBlockStmt (ExprStmt (Ident 14 ''x'')) \<and>
   (\<exists>m. VisitStmt \<lparr>base = 1, fsize = 100, lineOf = (\<lambda>off. 1), columnOf = (\<lambda>off. off + 1)\<rparr> []
          (IfStmt 1 None (Some (Ident 4 ''a'')) (Block 6 [] 7) (Some (ExprStmt (Ident 14 ''x'')))) =
        Panic m \<and>
        (m = ''unexpected node type in if'' \<or>
         VisitStmt \<lparr>base = 1, fsize = 100, lineOf = (\<lambda>off. 1), columnOf = (\<lambda>off. off + 1)\<rparr> []
          (IfStmt 1 None (Some (Ident 4 ''a'')) (Block 6 [] 7) None) = Panic m))"
  using malformed_else_panics[of "ExprStmt (Ident 14 ''x'')"
      "\<lparr>base = 1, fsize = 100, lineOf = (\<lambda>off. 1), columnOf = (\<lambda>off. off + 1)\<rparr>" "[]"
      1 None "Some (Ident 4 ''a'')" "Block 6 [] 7"]
  by simp

section \<open>Properties of the function discoverer\<close>

lemma Visit_FuncLit:
  assumes "Visit fset funcs (ExprNode (FuncLit tp te tcs b)) = Ok (funcs1, node1)"
  shows "\<exists>fe. funcs1 = funcs @ [fe] \<and>
              name fe = ''@'' @ showInt (Line (PositionOf fset tp)) @ '':'' @
                        showInt (Column (PositionOf fset tp))"
  using assms by (auto simp: Visit_def bind_res_Ok_iff Let_def)

lemma Visit_FuncDecl:
  assumes "Visit fset funcs (DeclNode (FuncDecl recv np n tp te tcs (Some b))) = Ok (funcs1, node1)"
  shows "\<exists>fe nm. funcs1 = funcs @ [fe] \<and> functionName recv n = Ok nm \<and>
           name fe = (if nm = '''' then ''@'' @ showInt (Line (PositionOf fset tp)) @ '':'' @
                        showInt (Column (PositionOf fset tp)) else nm)"
  using assms by (auto simp: Visit_def bind_res_Ok_iff Let_def)

text \<open>
  Claim C7 (function naming).  A declaration without receiver is named by its
  identifier.  With a receiver the name is the receiver part, a dot and the identifier,
  where the receiver part is \<^verbatim>\<open>exprName\<close> of the first receiver's type: a pointer type
  gives what its element type gives, an index expression \<^verbatim>\<open>T[U]\<close> gives the two parts
  with brackets, an identifier gives its name, and every other shape gives the empty
  string, so that the name is \<^verbatim>\<open>.Name\<close>.  \<^verbatim>\<open>Visit\<close> records the declaration under
  that name, and a function literal under \<^verbatim>\<open>@line:column\<close> of its first position.
\<close>

theorem function_naming:
  "functionName None n = Ok n \<and>
   functionName (Some (t # others)) n = Ok (exprName t @ ''.'' @ n) \<and>
   exprName (StarExpr sp x) = exprName x \<and>
   exprName (IndexExpr x lb i rb) = exprName x @ ''['' @ exprName i @ '']'' \<and>
   exprName (Ident ip T) = T \<and>
   exprName (OtherExpr op oe cs) = '''' \<and>
   exprName (FuncLit lp le lcs lb') = '''' \<and>
   functionName (Some [StarExpr sp (Ident ip T)]) n = Ok (T @ ''.'' @ n) \<and>
   functionName (Some [IndexExpr (Ident ip T) lb (Ident up U) rb]) n =
     Ok (T @ ''['' @ U @ '']'' @ ''.'' @ n) \<and>
   functionName (Some [OtherExpr op oe cs]) n = Ok (''.'' @ n) \<and>
   (\<forall>funcs1 node1.
      Visit fset funcs (DeclNode (FuncDecl recv np n tp te tcs (Some b))) = Ok (funcs1, node1) \<longrightarrow>
      (\<exists>fe nm. funcs1 = funcs @ [fe] \<and> functionName recv n = Ok nm \<and>
         (nm \<noteq> '''' \<longrightarrow> name fe = nm))) \<and>
   (\<forall>funcs1 node1.
      Visit fset funcs (ExprNode (FuncLit tp te tcs b)) = Ok (funcs1, node1) \<longrightarrow>
      (\<exists>fe. funcs1 = funcs @ [fe] \<and>
         name fe = ''@'' @ showInt (Line (PositionOf fset tp)) @ '':'' @
                   showInt (Column (PositionOf fset tp))))"
proof -
  have decl: "\<forall>funcs1 node1.
      Visit fset funcs (DeclNode (FuncDecl recv np n tp te tcs (Some b))) = Ok (funcs1, node1) \<longrightarrow>
      (\<exists>fe nm. funcs1 = funcs @ [fe] \<and> functionName recv n = Ok nm \<and>
         (nm \<noteq> '''' \<longrightarrow> name fe = nm))"
    using Visit_FuncDecl by fastforce
  have lit: "\<forall>funcs1 node1.
      Visit fset funcs (ExprNode (FuncLit tp te tcs b)) = Ok (funcs1, node1) \<longrightarrow>
      (\<exists>fe. funcs1 = funcs @ [fe] \<and>
         name fe = ''@'' @ showInt (Line (PositionOf fset tp)) @ '':'' @
                   showInt (Column (PositionOf fset tp)))"
    using Visit_FuncLit by blast
  show ?thesis
    using decl lit by (simp add: functionName_def)
qed

text \<open>
  The method \<^verbatim>\<open>func (w *Widget) Draw() {}\<close> and a function literal on line 10,
  column 5; the receivers \<^verbatim>\<open>Widget[T]\<close> and one of another shape.
\<close>

theorem function_naming_witness:
  "Visit \<lparr>base = 1, fsize = 100, lineOf = (\<lambda>off. 10), columnOf = (\<lambda>off. 5)\<rparr> []
     (DeclNode (FuncDecl (Some [StarExpr 7 (Ident 8 ''Widget'')]) 16 ''Draw'' 1 22 []
                  (Some (Block 23 [] 24)))) =
   Ok ([\<lparr>startOffset = 0, startLine = 10, startCol = 5, endOffset = 24,
         endLine = 10, endCol = 5, name = ''Widget.Draw'', stmts = []\<rparr>],
       DeclNode (FuncDecl (Some [StarExpr 7 (Ident 8 ''Widget'')]) 16 ''Draw'' 1 22 []
                  (Some (Block 23 [] 24)))) \<and>
   Visit \<lparr>base = 1, fsize = 100, lineOf = (\<lambda>off. 10), columnOf = (\<lambda>off. 5)\<rparr> []
     (ExprNode (FuncLit 20 26 [] (Block 27 [] 28))) =
   Ok ([\<lparr>startOffset = 19, startLine = 10, startCol = 5, endOffset = 28,
         endLine = 10, endCol = 5, name = ''@10:5'', stmts = []\<rparr>],
       ExprNode (FuncLit 20 26 [] (Block 27 [] 28))) \<and>
   functionName (Some [StarExpr 7 (Ident 8 ''Widget'')]) ''Draw'' = Ok ''Widget.Draw'' \<and>
   functionName (Some [IndexExpr (Ident 8 ''Widget'') 14 (Ident 15 ''T'') 16]) ''Draw'' =
     Ok ''Widget[T].Draw'' \<and>
   functionName (Some [OtherExpr 8 20 []]) ''Draw'' = Ok ''.Draw''"
proof -
  let ?fs = "\<lparr>base = 1, fsize = 100, lineOf = (\<lambda>off. 10), columnOf = (\<lambda>off. 5)\<rparr>"
  have decl: "Visit ?fs []
     (DeclNode (FuncDecl (Some [StarExpr 7 (Ident 8 ''Widget'')]) 16 ''Draw'' 1 22 []
                  (Some (Block 23 [] 24)))) =
   Ok ([\<lparr>startOffset = 0, startLine = 10, startCol = 5, endOffset = 24,
         endLine = 10, endCol = 5, name = ''Widget.Draw'', stmts = []\<rparr>],
       DeclNode (FuncDecl (Some [StarExpr 7 (Ident 8 ''Widget'')]) 16 ''Draw'' 1 22 []
                  (Some (Block 23 [] 24))))"
    by (simp add: Visit_def functionName_def PositionOf_def)
  have lit: "Visit ?fs [] (ExprNode (FuncLit 20 26 [] (Block 27 [] 28))) =
   Ok ([\<lparr>startOffset = 19, startLine = 10, startCol = 5, endOffset = 28,
         endLine = 10, endCol = 5, name = ''@10:5'', stmts = []\<rparr>],
       ExprNode (FuncLit 20 26 [] (Block 27 [] 28)))"
    by (simp add: Visit_def PositionOf_def showInt_def showNat.simps)
  note inst = function_naming[of "''Draw''" "OtherExpr 8 20 []" "[]" 7 "Ident 8 ''Widget''" 14
      "Ident 15 ''T''" 16 8 "''Widget''" 8 20 "[]" 0 0 "[]" "Block 0 [] 0" 15 "''T''"
      ?fs "[]" "Some [StarExpr 7 (Ident 8 ''Widget'')]" 16 1 22 "[]" "Block 23 [] 24"]
  from inst decl lit show ?thesis
    by simp
qed

section \<open>Properties of the conversion orchestrator\<close>

lemma convertFiles_no_match:
  "\<forall>abspath\<in>set files. filepathBase abspath \<noteq> filename \<Longrightarrow>
   convertFiles env c profile pkgPath filename files = Ok c"
  by (induction files) simp_all

lemma convertEntries_skip:
  assumes "pkgmap (TrimSuffix (fst (pathSplit (FileName p))) ''/'') = Some pkg"
    and "\<forall>abspath\<in>set (CompiledGoFiles pkg). filepathBase abspath \<noteq> snd (pathSplit (FileName p))"
  shows "convertEntries env pkgmap c (p # rest) = convertEntries env pkgmap c rest"
  using assms by (simp add: convertFiles_no_match split_def)

text \<open>
  Claim C10.  A profile entry whose directory is among the loaded packages and whose
  base file name is the base name of none of that package's compiled files is passed
  over: the loop over the entries (lines 83-94) leaves the converter as it was and
  raises no error for it, so the entries before and after it are converted as if it
  were not there, and the conversion of the profile file yields what they alone yield.
\<close>

theorem unmatched_file_is_skipped:
  assumes "pkgmap (TrimSuffix (fst (pathSplit (FileName p))) ''/'') = Some pkg"
    and "\<forall>abspath\<in>set (CompiledGoFiles pkg). filepathBase abspath \<noteq> snd (pathSplit (FileName p))"
  shows "convertEntries env pkgmap c [p] = Ok c \<and>
         convertEntries env pkgmap c (before @ p # rest) =
           convertEntries env pkgmap c (before @ rest) \<and>
         (ParseProfiles env f = Ok (before @ p # rest) \<longrightarrow>
          Load env (uniqPackageNames env [] (before @ p # rest)) = Ok packages \<longrightarrow>
          pkgmapOf packages = pkgmap \<longrightarrow>
          convertFile env ps f =
            bind_res (convertEntries env pkgmap [] (before @ rest))
              (\<lambda>c. Ok (foldl (AddPackage env) ps (rangeOrder env c))))"
proof -
  have single: "convertEntries env pkgmap c [p] = Ok c"
    using assms convertEntries_skip[of pkgmap p pkg env c "[]"] by simp
  have skip: "convertEntries env pkgmap c (before @ p # rest) =
           convertEntries env pkgmap c (before @ rest)" for c
  proof (induction before arbitrary: c)
    case Nil
    show ?case using assms convertEntries_skip[of pkgmap p pkg env c rest] by simp
  next
    case (Cons q before)
    show ?case
      by (simp add: Cons.IH split_def Let_def split: option.splits)
  qed
  show ?thesis
    using single skip by (simp add: convertFile_def)
qed

text \<open>
  A profile with the single entry \<^verbatim>\<open>example.com/pkg/a.go\<close>, for a package whose only
  file is \<^verbatim>\<open>b.go\<close>: \<^verbatim>\<open>ConvertProfiles\<close> succeeds, with no package to encode.
\<close>

theorem unmatched_file_is_skipped_witness:
  "pkgmapOf [\<lparr>PkgPath = ''example.com/pkg'', CompiledGoFiles = [''/src/pkg/b.go'']\<rparr>]
     (TrimSuffix (fst (pathSplit (FileName
        \<lparr>FileName = ''example.com/pkg/a.go'', Mode = ''set'', Blocks = []\<rparr>))) ''/'') =
     Some \<lparr>PkgPath = ''example.com/pkg'', CompiledGoFiles = [''/src/pkg/b.go'']\<rparr> \<and>
   CompiledGoFiles \<lparr>PkgPath = ''example.com/pkg'', CompiledGoFiles = [''/src/pkg/b.go'']\<rparr> =
     [''/src/pkg/b.go''] \<and>
   filepathBase ''/src/pkg/b.go'' \<noteq>
     snd (pathSplit (FileName \<lparr>FileName = ''example.com/pkg/a.go'', Mode = ''set'', Blocks = []\<rparr>)) \<and>
   ConvertProfiles
     \<lparr>ParseProfiles =
        (\<lambda>f. Ok [\<lparr>FileName = ''example.com/pkg/a.go'', Mode = ''set'', Blocks = []\<rparr>]),
      Load = (\<lambda>names. Ok [\<lparr>PkgPath = ''example.com/pkg'',
                               CompiledGoFiles = [''/src/pkg/b.go'']\<rparr>]),
      ParseFile = (\<lambda>f. Err ''no such file''), pathDir = (\<lambda>p. ''example.com/pkg''),
      rangeOrder = map snd, AddPackage = (\<lambda>ps p. ps @ [p]),
      Encode = (\<lambda>ps. Ok (concat (map P_Name ps)))\<rparr>
     [''c.out''] = Ok ''''"
proof -
  let ?pkg = "\<lparr>PkgPath = ''example.com/pkg'', CompiledGoFiles = [''/src/pkg/b.go'']\<rparr>"
  let ?p = "\<lparr>FileName = ''example.com/pkg/a.go'', Mode = ''set'', Blocks = []\<rparr>"
  let ?env = "\<lparr>ParseProfiles = (\<lambda>f. Ok [?p]), Load = (\<lambda>names. Ok [?pkg]),
      ParseFile = (\<lambda>f. Err ''no such file''), pathDir = (\<lambda>p. ''example.com/pkg''),
      rangeOrder = map snd, AddPackage = (\<lambda>ps p. ps @ [p]),
      Encode = (\<lambda>ps. Ok (concat (map P_Name ps)))\<rparr>"
  have found: "pkgmapOf [?pkg] (TrimSuffix (fst (pathSplit (FileName ?p))) ''/'') = Some ?pkg"
    by (simp add: pkgmapOf_def pathSplit_def TrimSuffix_def)
  have nomatch: "\<forall>abspath\<in>set (CompiledGoFiles ?pkg).
      filepathBase abspath \<noteq> snd (pathSplit (FileName ?p))"
    by (simp add: filepathBase_def pathSplit_def)
  from found nomatch
    unmatched_file_is_skipped[where pkgmap = "pkgmapOf [?pkg]" and p = ?p and pkg = ?pkg
      and env = ?env and before = "[]" and rest = "[]" and f = "''c.out''"
      and packages = "[?pkg]" and ps = "[]"]
  show ?thesis by (simp add: ConvertProfiles_def)
qed

lemma convertEntries_nil_package:
  "pkgmap (TrimSuffix (fst (pathSplit (FileName p))) ''/'') = None \<Longrightarrow>
   convertEntries env pkgmap c (p # rest) =
     Panic ''invalid memory address or nil pointer dereference''"
  by (simp add: split_def)

text \<open>
  Claim C3.  A profile entry for \<^verbatim>\<open>example.com/missing/a.go\<close>, with no package of that
  path among those that \<^verbatim>\<open>Load\<close> returns: \<^verbatim>\<open>pkgmap[pkgpath]\<close> is nil and line 87
  dereferences it.  The conversion panics instead of returning an error.
\<close>

theorem missing_package_panics:
  "ConvertProfiles
     \<lparr>ParseProfiles = (\<lambda>f. Ok [\<lparr>FileName = ''example.com/missing/a.go'', Mode = ''set'',
                                  Blocks = [\<lparr>StartLine = 1, StartCol = 1, EndLine = 2, EndCol = 1,
                                              NumStmt = 1, Count = 1\<rparr>]\<rparr>]),
      Load = (\<lambda>names. Ok []),
      ParseFile = (\<lambda>f. Err ''no such file''),
      pathDir = (\<lambda>p. ''example.com/missing''),
      rangeOrder = map snd,
      AddPackage = (\<lambda>ps p. ps @ [p]),
      Encode = (\<lambda>ps. Ok '''')\<rparr>
     [''c.out''] =
   Panic ''invalid memory address or nil pointer dereference''"
  by (simp add: ConvertProfiles_def convertFile_def pkgmapOf_def pathSplit_def TrimSuffix_def)

section \<open>Containment of statement extents\<close>

lemma collectToken_within:
  assumes "0 < base fset" "base fset \<le> lo" "hi \<le> base fset + fsize fset"
    and "tokenWithin lo hi p tok" and "length tok' \<le> length tok"
    and "\<forall>se\<in>set ss. extentWithin fset lo hi se"
  shows "\<forall>se\<in>set (collectToken fset ss p tok'). extentWithin fset lo hi se"
  using assms
  by (auto simp: collectToken_def tokenWithin_def extentWithin_def mkExtent_def PositionOf_def)

lemma collectExpr_within:
  assumes "0 < base fset" "base fset \<le> lo" "hi \<le> base fset + fsize fset"
    and "exprWithin lo hi x" and "collectExpr fset ss (ExprNode x) = Ok ss1"
    and "\<forall>se\<in>set ss. extentWithin fset lo hi se"
  shows "\<forall>se\<in>set ss1. extentWithin fset lo hi se"
  using assms
  by (auto simp: collectExpr_def exprWithin_def extentWithin_def mkExtent_def PositionOf_def
      bind_res_Ok_iff split: res.splits)

lemma collectDecl_within:
  assumes "0 < base fset" "base fset \<le> lo" "hi \<le> base fset + fsize fset"
    and "declWithin lo hi d" and "collectExpr fset ss (DeclNode d) = Ok ss1"
    and "\<forall>se\<in>set ss. extentWithin fset lo hi se"
  shows "\<forall>se\<in>set ss1. extentWithin fset lo hi se"
  using assms
  by (auto simp: collectExpr_def declWithin_def extentWithin_def mkExtent_def PositionOf_def
      bind_res_Ok_iff split: res.splits)

lemma rewriteElse_within:
  "rewriteElse e = Ok block \<Longrightarrow> stmtWithin lo hi e \<Longrightarrow> blockWithin lo hi block"
  by (cases e rule: rewriteElse.cases) (auto simp: bind_res_Ok_iff)

lemma allWithin_token:
  "inFile fset lo hi \<Longrightarrow> allWithin fset lo hi ss \<Longrightarrow> tokenWithin lo hi p tok \<Longrightarrow>
   length tok' \<le> length tok \<Longrightarrow> allWithin fset lo hi (collectToken fset ss p tok')"
  unfolding inFile_def allWithin_def using collectToken_within by blast

lemma allWithin_expr:
  "inFile fset lo hi \<Longrightarrow> allWithin fset lo hi ss \<Longrightarrow> exprWithin lo hi x \<Longrightarrow>
   collectExpr fset ss (ExprNode x) = Ok ss1 \<Longrightarrow> allWithin fset lo hi ss1"
  unfolding inFile_def allWithin_def using collectExpr_within by blast

lemma allWithin_decl:
  "inFile fset lo hi \<Longrightarrow> allWithin fset lo hi ss \<Longrightarrow> declWithin lo hi d \<Longrightarrow>
   collectExpr fset ss (DeclNode d) = Ok ss1 \<Longrightarrow> allWithin fset lo hi ss1"
  unfolding inFile_def allWithin_def using collectDecl_within by blast

text \<open>
  Every extent that a visit appends lies in the range in which the visited statement
  lies.  The opening braces that the else rewriting moves play no part: no extent is
  recorded for a block.
\<close>

lemma VisitStmt_within:
  shows "\<forall>s1 ss1. inFile fset lo hi \<longrightarrow> stmtWithin lo hi s \<longrightarrow> allWithin fset lo hi ss \<longrightarrow>
           VisitStmt fset ss s = Ok (s1, ss1) \<longrightarrow> allWithin fset lo hi ss1"
    and "\<forall>b1 ss1. inFile fset lo hi \<longrightarrow> blockWithin lo hi b \<longrightarrow> allWithin fset lo hi ss \<longrightarrow>
           VisitBlock fset ss b = Ok (b1, ss1) \<longrightarrow> allWithin fset lo hi ss1"
    and "\<forall>xs1 ss1. inFile fset lo hi \<longrightarrow> stmtsWithin lo hi xs \<longrightarrow> allWithin fset lo hi ss \<longrightarrow>
           VisitStmts fset ss xs = Ok (xs1, ss1) \<longrightarrow> allWithin fset lo hi ss1"
proof (induction fset ss s and fset ss b and fset ss xs
       rule: VisitStmt_VisitBlock_VisitStmts.induct)
  case (1 fset ss f t)
  then show ?case
    by (auto simp: bind_res_Ok_iff split: option.splits prod.splits intro: allWithin_expr allWithin_decl allWithin_token)
next
  case (2 fset ss d)
  then show ?case
    by (auto simp: bind_res_Ok_iff split: option.splits prod.splits intro: allWithin_expr allWithin_decl allWithin_token)
next
  case (3 fset ss p implicit)
  then show ?case
    by (auto simp: bind_res_Ok_iff split: option.splits prod.splits intro: allWithin_expr allWithin_decl allWithin_token)
next
  case (4 fset ss lp ln c s)
  then show ?case
    by (auto simp: bind_res_Ok_iff split: option.splits prod.splits intro: allWithin_expr allWithin_decl allWithin_token)
next
  case (5 fset ss x)
  then show ?case
    by (auto simp: bind_res_Ok_iff split: option.splits prod.splits intro: allWithin_expr allWithin_decl allWithin_token)
next
  case (6 fset ss ch a v)
  then show ?case
    by (auto simp: bind_res_Ok_iff split: option.splits prod.splits intro: allWithin_expr allWithin_decl allWithin_token)
next
  case (7 fset ss x p t)
  then show ?case
    by (auto simp: bind_res_Ok_iff split: option.splits prod.splits intro: allWithin_expr allWithin_decl allWithin_token)
next
  case (8 fset ss lhs p t rhs)
  then show ?case
    by (auto simp: tokenWithin_def Suc_le_eq intro!: allWithin_token[where tok = t and tok' = "''=''"])
next
  case (9 fset ss p call)
  then show ?case
    by (auto simp: bind_res_Ok_iff split: option.splits prod.splits intro: allWithin_expr allWithin_decl allWithin_token)
next
  case (10 fset ss p call)
  then show ?case
    by (auto simp: bind_res_Ok_iff split: option.splits prod.splits intro: allWithin_expr allWithin_decl allWithin_token)
next
  case (11 fset ss p rs)
  then show ?case
    by (auto simp: bind_res_Ok_iff split: option.splits prod.splits intro: allWithin_expr allWithin_decl allWithin_token)
next
  case (12 fset ss p t lbl)
  then show ?case
    by (auto simp: bind_res_Ok_iff tokenWithin_def Suc_le_eq split: option.splits prod.splits intro!: allWithin_token[where tok = t and tok' = "''g''"] intro: allWithin_expr)
next
  case (13 fset ss b)
  then show ?case
    by (auto simp: bind_res_Ok_iff split: option.splits prod.splits intro: allWithin_expr allWithin_decl allWithin_token)
next
  case (14 fset ss p init cond body els)
  then show ?case
    proof (intro allI impI)
    fix s1 ss1
    assume F: "inFile fset lo hi" and W: "stmtWithin lo hi (IfStmt p init cond body els)"
      and A: "allWithin fset lo hi ss"
      and R: "VisitStmt fset ss (IfStmt p init cond body els) = Ok (s1, ss1)"
    let ?I = "case init of
                 Some i \<Rightarrow> bind_res (VisitStmt fset ss i) (\<lambda>(i1, ss1). Ok (Some i1, ss1))
               | None \<Rightarrow>
                   (case cond of
                      Some c \<Rightarrow> bind_res (collectExpr fset ss (ExprNode c)) (\<lambda>ss1. Ok (None, ss1))
                    | None \<Rightarrow> Ok (None, ss))"
    from R obtain init1 ssa body1 ssb where I: "?I = Ok (init1, ssa)"
      and B: "VisitBlock fset ssa body = Ok (body1, ssb)"
      and E: "(case els of
                 None \<Rightarrow> Ok (IfStmt p init1 cond body1 None, ssb)
               | Some e \<Rightarrow>
                   bind_res (rewriteElse e) (\<lambda>block.
                   bind_res (VisitBlock fset ssb block) (\<lambda>(block1, ss3).
                     Ok (IfStmt p init1 cond body1 (Some (BlockStmt block1)), ss3)))) = Ok (s1, ss1)"
      by (auto simp: bind_res_Ok_iff)
    have "allWithin fset lo hi ssa"
    proof (cases init)
      case (Some i)
      with I W A F "14.IH"(1) show ?thesis by (auto simp: bind_res_Ok_iff)
    next
      case None
      show ?thesis
      proof (cases cond)
        case (Some c)
        with None I W A F show ?thesis by (auto simp: bind_res_Ok_iff intro: allWithin_expr)
      next
        case no_cond: None
        with None I A show ?thesis by simp
      qed
    qed
    with "14.IH"(2)[OF I refl] W B F have Ab: "allWithin fset lo hi ssb" by auto
    show "allWithin fset lo hi ss1"
    proof (cases els)
      case None
      with E Ab show ?thesis by simp
    next
      case (Some e)
      with E obtain block block1 where rw: "rewriteElse e = Ok block"
        and V: "VisitBlock fset ssb block = Ok (block1, ss1)"
        by (auto simp: bind_res_Ok_iff)
      from rw W Some have "blockWithin lo hi block"
        by (auto intro: rewriteElse_within)
      with "14.IH"(3)[OF I refl B refl Some rw] V Ab F show ?thesis by auto
    qed
  qed
next
  case (15 fset ss p l c body)
  then show ?case
    by (auto simp: bind_res_Ok_iff split: option.splits prod.splits intro: allWithin_expr allWithin_decl allWithin_token)
next
  case (16 fset ss p init tag body)
  then show ?case
    proof (intro allI impI)
    fix s1 ss1
    assume F: "inFile fset lo hi" and W: "stmtWithin lo hi (SwitchStmt p init tag body)"
      and A: "allWithin fset lo hi ss"
      and R: "VisitStmt fset ss (SwitchStmt p init tag body) = Ok (s1, ss1)"
    let ?I = "case init of
                 Some i \<Rightarrow> bind_res (VisitStmt fset ss i) (\<lambda>(i1, ss1). Ok (Some i1, ss1))
               | None \<Rightarrow> Ok (None, collectToken fset ss p ''switch'')"
    from R obtain init1 ssa body1 where I: "?I = Ok (init1, ssa)"
      and B: "VisitBlock fset ssa body = Ok (body1, ss1)"
      by (auto simp: bind_res_Ok_iff)
    have "allWithin fset lo hi ssa"
    proof (cases init)
      case None
      with I W A F show ?thesis by (auto intro: allWithin_token)
    next
      case (Some i)
      with I W A F "16.IH"(1) show ?thesis by (auto simp: bind_res_Ok_iff)
    qed
    with "16.IH"(2)[OF I refl] W B F show "allWithin fset lo hi ss1" by auto
  qed
next
  case (17 fset ss p init assign body)
  then show ?case
    proof (intro allI impI)
    fix s1 ss1
    assume F: "inFile fset lo hi" and W: "stmtWithin lo hi (TypeSwitchStmt p init assign body)"
      and A: "allWithin fset lo hi ss"
      and R: "VisitStmt fset ss (TypeSwitchStmt p init assign body) = Ok (s1, ss1)"
    let ?I = "case init of
                 Some i \<Rightarrow> bind_res (VisitStmt fset ss i) (\<lambda>(i1, ss1). Ok (Some i1, assign, ss1))
               | None \<Rightarrow>
                   (case assign of
                      Some a \<Rightarrow> bind_res (VisitStmt fset ss a) (\<lambda>(a1, ss1). Ok (None, Some a1, ss1))
                    | None \<Rightarrow> Ok (None, None, collectToken fset ss p ''switch''))"
    from R obtain init1 assign1 ssa body1 where I: "?I = Ok (init1, assign1, ssa)"
      and B: "VisitBlock fset ssa body = Ok (body1, ss1)"
      by (auto simp: bind_res_Ok_iff)
    have "allWithin fset lo hi ssa"
    proof (cases init)
      case (Some i)
      with I W A F "17.IH"(1,2) show ?thesis by (auto simp: bind_res_Ok_iff)
    next
      case None
      show ?thesis
      proof (cases assign)
        case (Some a)
        with None I W A F "17.IH"(1,2) show ?thesis by (auto simp: bind_res_Ok_iff)
      next
        case no_assign: None
        with None I W A F show ?thesis by (auto intro: allWithin_token)
      qed
    qed
    with "17.IH"(3)[OF I refl refl] W B F show "allWithin fset lo hi ss1" by auto
  qed
next
  case (18 fset ss p comm c body)
  then show ?case
    by (auto simp: bind_res_Ok_iff split: option.splits prod.splits intro: allWithin_expr allWithin_decl allWithin_token)
next
  case (19 fset ss p body)
  then show ?case
    by (auto simp: bind_res_Ok_iff split: option.splits prod.splits intro: allWithin_expr allWithin_decl allWithin_token)
next
  case (20 fset ss p init cond post body)
  then show ?case
    proof (intro allI impI)
    fix s1 ss1
    assume F: "inFile fset lo hi" and W: "stmtWithin lo hi (ForStmt p init cond post body)"
      and A: "allWithin fset lo hi ss"
      and R: "VisitStmt fset ss (ForStmt p init cond post body) = Ok (s1, ss1)"
    let ?I = "case init of
                 Some i \<Rightarrow> bind_res (VisitStmt fset ss i) (\<lambda>(i1, ss1). Ok (Some i1, post, ss1))
               | None \<Rightarrow>
                   (case cond of
                      Some c \<Rightarrow>
                        bind_res (collectExpr fset ss (ExprNode c)) (\<lambda>ss1. Ok (None, post, ss1))
                    | None \<Rightarrow>
                        (case post of
                           Some q \<Rightarrow>
                             bind_res (VisitStmt fset ss q) (\<lambda>(q1, ss1). Ok (None, Some q1, ss1))
                         | None \<Rightarrow> Ok (None, None, collectToken fset ss p ''for'')))"
    from R obtain init1 post1 ssa body1 where I: "?I = Ok (init1, post1, ssa)"
      and B: "VisitBlock fset ssa body = Ok (body1, ss1)"
      by (auto simp: bind_res_Ok_iff)
    have "allWithin fset lo hi ssa"
    proof (cases init)
      case (Some i)
      with I W A F "20.IH"(1,2) show ?thesis by (auto simp: bind_res_Ok_iff)
    next
      case None
      show ?thesis
      proof (cases cond)
        case (Some c)
        with None I W A F show ?thesis by (auto simp: bind_res_Ok_iff intro: allWithin_expr)
      next
        case no_cond: None
        show ?thesis
        proof (cases post)
          case (Some q)
          with None no_cond I W A F "20.IH"(1,2) show ?thesis by (auto simp: bind_res_Ok_iff)
        next
          case no_post: None
          with None no_cond I W A F show ?thesis by (auto intro: allWithin_token)
        qed
      qed
    qed
    with "20.IH"(3)[OF I refl refl] W B F show "allWithin fset lo hi ss1" by auto
  qed
next
  case (21 fset ss p k v tp t x body)
  then show ?case
    by (auto simp: bind_res_Ok_iff split: option.splits prod.splits intro: allWithin_expr allWithin_decl allWithin_token)
next
  case (22 fset ss l xs r)
  then show ?case
    by (auto simp: bind_res_Ok_iff split: option.splits prod.splits intro: allWithin_expr allWithin_decl allWithin_token)
next
  case (23 fset ss)
  then show ?case
    by (auto simp: bind_res_Ok_iff split: option.splits prod.splits intro: allWithin_expr allWithin_decl allWithin_token)
next
  case (24 fset ss s rest)
  then show ?case
    by (auto simp: bind_res_Ok_iff split: option.splits prod.splits intro: allWithin_expr allWithin_decl allWithin_token)
qed

lemma Visit_function:
  assumes "Visit fset funcs node = Ok (funcs1, node1)" and "funcBody node = Some b"
    and "Node_Pos node = Ok lo" and "Node_End node = Ok hi"
  shows "\<exists>fe b1. funcs1 = funcs @ [fe] \<and> VisitBlock fset [] b = Ok (b1, stmts fe) \<and>
           startOffset fe = Offset (PositionOf fset lo) \<and>
           endOffset fe = Offset (PositionOf fset hi)"
proof (cases node)
  case (ExprNode x)
  with assms show ?thesis
    by (cases x) (auto simp: Visit_def bind_res_Ok_iff Let_def)
next
  case (StmtNode s)
  with assms show ?thesis by simp
next
  case (DeclNode d)
  with assms show ?thesis
    by (cases d) (auto simp: Visit_def bind_res_Ok_iff Let_def)
qed

lemma statements_within_function:
  assumes visit: "Visit fset funcs node = Ok (funcs1, node1)"
    and body: "funcBody node = Some b"
    and pos: "Node_Pos node = Ok lo" and end': "Node_End node = Ok hi"
    and bounds: "0 < base fset" "base fset \<le> lo" "lo \<le> hi" "hi \<le> base fset + fsize fset"
    and within: "blockWithin lo hi b"
  shows "\<exists>fe. funcs1 = funcs @ [fe] \<and>
           (\<forall>se\<in>set (stmts fe).
              startOffset fe \<le> startOffset se \<and> endOffset se \<le> endOffset fe)"
proof -
  from Visit_function[OF visit body pos end'] obtain fe b1 where
    fe: "funcs1 = funcs @ [fe]" and vb: "VisitBlock fset [] b = Ok (b1, stmts fe)"
    and so: "startOffset fe = Offset (PositionOf fset lo)"
    and eo: "endOffset fe = Offset (PositionOf fset hi)"
    by blast
  have inF: "inFile fset lo hi"
    using bounds by (simp add: inFile_def)
  have "allWithin fset lo hi (stmts fe)"
    using VisitStmt_within(2)[of fset lo hi b "[]"] inF within vb
    by (simp add: allWithin_def)
  moreover have "startOffset fe = lo - base fset" "endOffset fe = hi - base fset"
    using so eo bounds by (simp_all add: PositionOf_def)
  ultimately show ?thesis
    using fe by (auto simp: allWithin_def extentWithin_def)
qed

text \<open>The rewriting of else branches leaves the functions of a tree as they are.\<close>

lemma funcNodes_StmtNode:
  "funcNodes (StmtNode s) = concat (map funcNodes (children (StmtNode s)))"
  by (subst funcNodes.simps) simp

lemma funcNodes_opt [simp]:
  "concat (map funcNodes (optStmt so)) = (case so of None \<Rightarrow> [] | Some s \<Rightarrow> funcNodes (StmtNode s))"
  "concat (map funcNodes (optExpr xo)) = (case xo of None \<Rightarrow> [] | Some x \<Rightarrow> funcNodes (ExprNode x))"
  by (cases so; simp) (cases xo; simp)

lemma rewriteElse_funcNodes:
  "rewriteElse e = Ok block \<Longrightarrow>
   funcNodes (StmtNode (BlockStmt block)) = funcNodes (StmtNode e)"
  by (cases e rule: rewriteElse.cases)
     (auto simp: bind_res_Ok_iff funcNodes_StmtNode[of "BlockStmt _"])

lemma Visit_funcNodes:
  "\<forall>s1 ss1. VisitStmt fset ss s = Ok (s1, ss1) \<longrightarrow>
      funcNodes (StmtNode s1) = funcNodes (StmtNode s)"
  "\<forall>b1 ss1. VisitBlock fset ss b = Ok (b1, ss1) \<longrightarrow>
      funcNodes (StmtNode (BlockStmt b1)) = funcNodes (StmtNode (BlockStmt b))"
  "\<forall>xs1 ss1. VisitStmts fset ss xs = Ok (xs1, ss1) \<longrightarrow>
      concat (map funcNodes (map StmtNode xs1)) = concat (map funcNodes (map StmtNode xs))"
proof (induction fset ss s and fset ss b and fset ss xs
       rule: VisitStmt_VisitBlock_VisitStmts.induct)
  case (14 fset ss p init cond body els)
  show ?case
  proof (intro allI impI)
    fix s1 ss1
    assume run: "VisitStmt fset ss (IfStmt p init cond body els) = Ok (s1, ss1)"
    show "funcNodes (StmtNode s1) = funcNodes (StmtNode (IfStmt p init cond body els))"
      using run "14.IH"
      by (cases els)
         (auto simp: bind_res_Ok_iff funcNodes_StmtNode[of "IfStmt _ _ _ _ _"]
               rewriteElse_funcNodes split: option.splits prod.splits)
  qed
qed (auto simp: bind_res_Ok_iff funcNodes_StmtNode[of "LabeledStmt _ _ _ _"]
      funcNodes_StmtNode[of "BlockStmt _"] funcNodes_StmtNode[of "CaseClause _ _ _ _"]
      funcNodes_StmtNode[of "SwitchStmt _ _ _ _"] funcNodes_StmtNode[of "TypeSwitchStmt _ _ _ _"]
      funcNodes_StmtNode[of "CommClause _ _ _ _"] funcNodes_StmtNode[of "SelectStmt _ _"]
      funcNodes_StmtNode[of "ForStmt _ _ _ _ _"] funcNodes_StmtNode[of "RangeStmt _ _ _ _ _ _ _"]
      split: option.splits prod.splits)

lemma wellNested_unfold:
  "wellNested fset n \<longleftrightarrow>
     funcWellNested fset n \<and> (\<forall>c\<in>set (children n). wellNested fset c)"
  unfolding wellNested_def
  by (subst funcNodes.simps) (auto simp: funcWellNested_def list_all_iff)

lemma wellNested_children_cong:
  assumes "concat (map funcNodes cs1) = concat (map funcNodes cs)"
    and "\<forall>c\<in>set cs. wellNested fset c"
  shows "\<forall>c\<in>set cs1. wellNested fset c"
proof -
  have "(\<forall>c\<in>set ds. wellNested fset c) \<longleftrightarrow>
        list_all (funcWellNested fset) (concat (map funcNodes ds))" for ds
    by (auto simp: wellNested_def list_all_iff)
  with assms show ?thesis by simp
qed

lemma VisitBlock_funcNodes:
  "VisitBlock fset ss b = Ok (b1, ss1) \<Longrightarrow>
   funcNodes (StmtNode (BlockStmt b1)) = funcNodes (StmtNode (BlockStmt b))"
  using Visit_funcNodes(2) by blast

lemma Visit_children_funcNodes:
  assumes "Visit fset funcs n = Ok (funcs1, n1)"
  shows "concat (map funcNodes (children n1)) = concat (map funcNodes (children n))"
proof (cases "funcBody n")
  case None
  with assms have "n1 = n"
    by (cases n rule: funcBody.cases) (auto simp: Visit_def bind_res_Ok_iff)
  then show ?thesis by simp
next
  case (Some b)
  with assms obtain b1 ss where vb: "VisitBlock fset [] b = Ok (b1, ss)" and n1: "n1 = setBody n b1"
    by (cases n rule: funcBody.cases) (auto simp: Visit_def bind_res_Ok_iff Let_def)
  from Some n1 VisitBlock_funcNodes[OF vb] show ?thesis
    by (cases n rule: funcBody.cases) auto
qed

lemma Visit_other:
  assumes "Visit fset funcs n = Ok (funcs1, n1)" and "funcBody n = None"
  shows "funcs1 = funcs"
proof (cases n)
  case (ExprNode x)
  with assms show ?thesis
    by (cases x) (auto simp: Visit_def)
next
  case (StmtNode s)
  with assms show ?thesis by (simp add: Visit_def)
next
  case (DeclNode d)
  with assms show ?thesis
    by (cases d) (auto simp: Visit_def bind_res_Ok_iff)
qed

lemma Visit_contained:
  assumes visit: "Visit fset funcs n = Ok (funcs1, n1)"
    and base: "0 < base fset" and wn: "funcWellNested fset n"
    and good: "list_all stmtsContained funcs"
  shows "list_all stmtsContained funcs1"
proof (cases "funcBody n")
  case None
  with Visit_other[OF visit] good show ?thesis by simp
next
  case (Some b)
  with wn obtain lo hi where pos: "Node_Pos n = Ok lo" and end': "Node_End n = Ok hi"
    and bounds: "base fset \<le> lo" "lo \<le> hi" "hi \<le> base fset + fsize fset"
    and within: "blockWithin lo hi b"
    by (auto simp: funcWellNested_def split: res.splits)
  from statements_within_function[OF visit Some pos end' base bounds within] good
  show ?thesis by (auto simp: stmtsContained_def)
qed

lemma walk_contained:
  "\<forall>funcs'. walk fset funcs n = Ok funcs' \<longrightarrow> 0 < base fset \<longrightarrow> wellNested fset n \<longrightarrow>
     list_all stmtsContained funcs \<longrightarrow> list_all stmtsContained funcs'"
  "\<forall>funcs'. walkList fset funcs ns = Ok funcs' \<longrightarrow> 0 < base fset \<longrightarrow>
     (\<forall>n\<in>set ns. wellNested fset n) \<longrightarrow>
     list_all stmtsContained funcs \<longrightarrow> list_all stmtsContained funcs'"
proof (induction fset funcs n and fset funcs ns rule: walk_walkList.induct)
  case (1 fset funcs node)
  show ?case
  proof (intro allI impI)
    fix funcs'
    assume run: "walk fset funcs node = Ok funcs'" and base: "0 < base fset"
      and wn: "wellNested fset node" and good: "list_all stmtsContained funcs"
    from run obtain funcs1 node1 where visit: "Visit fset funcs node = Ok (funcs1, node1)"
      and rest: "walkList fset funcs1 (children node1) = Ok funcs'"
      by (auto simp: bind_res_Ok_iff)
    from wn have own: "funcWellNested fset node"
      and sub: "\<forall>c\<in>set (children node). wellNested fset c"
      using wellNested_unfold by blast+
    have good1: "list_all stmtsContained funcs1"
      using Visit_contained[OF visit base own good] .
    have sub1: "\<forall>c\<in>set (children node1). wellNested fset c"
      using wellNested_children_cong[OF Visit_children_funcNodes[OF visit] sub] .
    from "1.IH"[OF visit refl] rest base sub1 good1
    show "list_all stmtsContained funcs'" by blast
  qed
next
  case (2 fset funcs)
  show ?case by simp
next
  case (3 fset funcs n ns)
  show ?case
  proof (intro allI impI)
    fix funcs'
    assume run: "walkList fset funcs (n # ns) = Ok funcs'" and base: "0 < base fset"
      and wn: "\<forall>m\<in>set (n # ns). wellNested fset m" and good: "list_all stmtsContained funcs"
    from run obtain funcs1 where first: "walk fset funcs n = Ok funcs1"
      and rest: "walkList fset funcs1 ns = Ok funcs'"
      by (auto simp: bind_res_Ok_iff)
    from "3.IH"(1) first base wn good have "list_all stmtsContained funcs1" by simp
    with "3.IH"(2)[OF first] rest base wn show "list_all stmtsContained funcs'" by simp
  qed
qed

text \<open>
  Claim C9 (containment).  Let the parser return a file in which every function lies in
  the file and holds the operands and tokens of its body's statements between its first
  position and its end.  Then for every function that \<^verbatim>\<open>findFuncs\<close> discovers, each
  recorded statement extent starts at or after the function's start offset and ends at
  or before its end offset.  This covers the fixed-length token spans; the positions
  moved back to the \<^verbatim>\<open>else\<close> keyword are never recorded as extents.
\<close>

theorem statement_extents_within_function:
  assumes "ParseFile env file = Ok (fset, decls)"
    and "0 < base fset"
    and "\<forall>d\<in>set decls. wellNested fset (DeclNode d)"
    and "findFuncs env file = Ok extents"
  shows "\<forall>fe\<in>set extents. \<forall>se\<in>set (stmts fe).
           startOffset fe \<le> startOffset se \<and> endOffset se \<le> endOffset fe"
proof -
  from assms(1,4) have "walkList fset [] (map DeclNode decls) = Ok extents"
    by (simp add: findFuncs_def)
  with walk_contained(2)[of fset "[]" "map DeclNode decls"] assms(2,3)
  have "list_all stmtsContained extents" by simp
  then show ?thesis
    by (simp add: list_all_iff stmtsContained_def)
qed

text \<open>
  The example file: its function \<^verbatim>\<open>f\<close> extends over offsets 0 to 53 and has four
  statement extents, for \<^verbatim>\<open>:=\<close>, \<^verbatim>\<open>x > 0\<close>, \<^verbatim>\<open>return\<close> and the operand of \<^verbatim>\<open>x++\<close>.
\<close>

theorem statement_extents_within_function_witness:
  "ParseFile exampleEnv ''f.go'' = Ok (exampleFileSet, [exampleDecl]) \<and>
   0 < base exampleFileSet \<and>
   wellNested exampleFileSet (DeclNode exampleDecl) \<and>
   findFuncs exampleEnv ''f.go'' =
     Ok [\<lparr>startOffset = 0, startLine = 1, startCol = 1, endOffset = 53, endLine = 1, endCol = 54,
          name = ''f'',
          stmts = [\<lparr>startOffset = 13, startLine = 1, startCol = 14,
                    endOffset = 14, endLine = 1, endCol = 15\<rparr>,
                   \<lparr>startOffset = 22, startLine = 1, startCol = 23,
                    endOffset = 27, endLine = 1, endCol = 28\<rparr>,
                   \<lparr>startOffset = 30, startLine = 1, startCol = 31,
                    endOffset = 36, endLine = 1, endCol = 37\<rparr>,
                   \<lparr>startOffset = 46, startLine = 1, startCol = 47,
                    endOffset = 47, endLine = 1, endCol = 48\<rparr>]\<rparr>] \<and>
   (0::int) \<le> 13 \<and> (14::int) \<le> 53 \<and> (0::int) \<le> 46 \<and> (47::int) \<le> 53"
proof -
  have parse: "ParseFile exampleEnv ''f.go'' = Ok (exampleFileSet, [exampleDecl])"
    by (simp add: exampleEnv_def)
  have base: "0 < base exampleFileSet"
    by (simp add: exampleFileSet_def)
  have wn: "wellNested exampleFileSet (DeclNode exampleDecl)"
    by (simp add: wellNested_def funcNodes.simps exampleDecl_def exampleFileSet_def
        funcWellNested_def exprWithin_def tokenWithin_def)
  then have wns: "\<forall>d\<in>set [exampleDecl]. wellNested exampleFileSet (DeclNode d)"
    by simp
  have found: "findFuncs exampleEnv ''f.go'' =
     Ok [\<lparr>startOffset = 0, startLine = 1, startCol = 1, endOffset = 53, endLine = 1, endCol = 54,
          name = ''f'',
          stmts = [\<lparr>startOffset = 13, startLine = 1, startCol = 14,
                    endOffset = 14, endLine = 1, endCol = 15\<rparr>,
                   \<lparr>startOffset = 22, startLine = 1, startCol = 23,
                    endOffset = 27, endLine = 1, endCol = 28\<rparr>,
                   \<lparr>startOffset = 30, startLine = 1, startCol = 31,
                    endOffset = 36, endLine = 1, endCol = 37\<rparr>,
                   \<lparr>startOffset = 46, startLine = 1, startCol = 47,
                    endOffset = 47, endLine = 1, endCol = 48\<rparr>]\<rparr>]"
    by (simp add: findFuncs_def exampleEnv_def exampleDecl_def exampleFileSet_def Visit_def
        functionName_def collectExpr_def collectToken_def mkExtent_def PositionOf_def)
  from statement_extents_within_function[OF parse base wns found] parse base wn found
  show ?thesis by simp
qed

end
